theory Spec2Isabelle
  imports Complex_Main
begin

section \<open>Python values and errors\<close>

text \<open>
  The program is a Python script. The values that reach the modelled functions are JSON
  scalars and command-line numbers: \<open>None\<close>, booleans, integers, floats and strings.
  Floats are modelled as exact rationals: rounding, infinities and NaN are outside the
  model. Every \<open>sys.exit(msg)\<close> is the error \<open>Exit msg\<close> and \<open>sys.exit()\<close> is \<open>ExitSuccess\<close>;
  an exception of Python is the error named after it, and \<open>ToolError\<close> is an exception
  raised by a library that wraps an external tool.
\<close>

datatype pyval = PNone | PBool bool | PInt int | PFloat rat | PStr string

datatype error =
    Exit string
  | ExitSuccess
  | KeyboardInterrupt
  | TypeError
  | KeyError
  | ValueError
  | ZeroDivisionError
  | ToolError string

text \<open>The numeric reading of a value in \<open>-\<close>, \<open>/\<close> and \<open>>\<close> against a float: a bool counts
  as 0 or 1, a string or \<open>None\<close> raises \<open>TypeError\<close> (here: no number).\<close>

fun num_of :: "pyval \<Rightarrow> rat option" where
  "num_of (PInt n) = Some (of_int n)"
| "num_of (PFloat r) = Some r"
| "num_of (PBool b) = Some (if b then 1 else 0)"
| "num_of (PStr s) = None"
| "num_of PNone = None"

text \<open>Python's \<open>int(x)\<close> on a float truncates toward zero.\<close>

definition py_int :: "rat \<Rightarrow> int" where
  "py_int x = (if 0 \<le> x then \<lfloor>x\<rfloor> else \<lceil>x\<rceil>)"

section \<open>The interpolation table and \<open>getInterpolatedSize\<close>\<close>

text \<open>
  \<open>info\<close> is a Python dict in insertion order: a list of entries \<open>(time, [width, height])\<close>.
  A dimension that no size key resolved is \<open>None\<close>.
\<close>

type_synonym dims = "int option \<times> int option"
type_synonym entry = "pyval \<times> dims"
type_synonym table = "entry list"

text \<open>
  The scan of \<open>getInterpolatedSize\<close>: the first entry becomes \<open>prev\<close>; every later entry
  becomes \<open>next\<close> when there is none, and when the query time is greater than the time of
  \<open>next\<close> the entry at hand becomes \<open>prev\<close> and \<open>next\<close> is dropped.
\<close>

fun scan :: "rat \<Rightarrow> entry option \<Rightarrow> entry option \<Rightarrow> table \<Rightarrow> error + (entry option \<times> entry option)" where
  "scan time prev nxt [] = Inr (prev, nxt)"
| "scan time prev nxt (e # rest) =
     (case prev of
        None \<Rightarrow> scan time (Some e) nxt rest
      | Some p \<Rightarrow>
          (let n = (case nxt of None \<Rightarrow> e | Some n' \<Rightarrow> n') in
           case num_of (fst n) of
             None \<Rightarrow> Inl TypeError
           | Some nt \<Rightarrow>
               if time > nt then scan time (Some e) None rest
               else scan time prev (Some n) rest))"

definition interpolate :: "entry \<Rightarrow> entry \<Rightarrow> rat \<Rightarrow> error + (int \<times> int)" where
  "interpolate p n time =
     (case (num_of (fst p), num_of (fst n)) of
        (Some pt, Some nt) \<Rightarrow>
          if nt - pt = 0 then Inl ZeroDivisionError
          else
            (let mult = (time - pt) / (nt - pt) in
             case (fst (snd p), snd (snd p), fst (snd n), snd (snd n)) of
               (Some pw, Some ph, Some nw, Some nh) \<Rightarrow>
                 (let diff0 = nw - pw; diff1 = nh - ph in
                  Inr (max 1 (py_int (of_int pw + mult * of_int diff0)),
                       max 1 (py_int (of_int ph + mult * of_int diff1))))
             | _ \<Rightarrow> Inl TypeError)
      | _ \<Rightarrow> Inl TypeError)"

definition getInterpolatedSize :: "table \<Rightarrow> rat \<Rightarrow> error + (int \<times> int)" where
  "getInterpolatedSize info time =
     (case scan time None None info of
        Inl e \<Rightarrow> Inl e
      | Inr (prev, nxt) \<Rightarrow>
          (case nxt of
             None \<Rightarrow> Inl (Exit ''Could not interpolate'')
           | Some n \<Rightarrow>
               (case prev of
                  None \<Rightarrow> Inl TypeError
                | Some p \<Rightarrow> interpolate p n time)))"

text \<open>
  Readers of an entry for stating properties: the time as a number, the two dimensions,
  and whether the entry has a numeric time and both dimensions. A table is well formed
  when every entry is resolved and the times are strictly increasing in table order.
\<close>

definition time_of :: "entry \<Rightarrow> rat" where
  "time_of e = (case num_of (fst e) of Some r \<Rightarrow> r | None \<Rightarrow> 0)"

definition width_of :: "entry \<Rightarrow> int" where
  "width_of e = (case fst (snd e) of Some w \<Rightarrow> w | None \<Rightarrow> 0)"

definition height_of :: "entry \<Rightarrow> int" where
  "height_of e = (case snd (snd e) of Some h \<Rightarrow> h | None \<Rightarrow> 0)"

definition resolved :: "entry \<Rightarrow> bool" where
  "resolved e = (num_of (fst e) \<noteq> None \<and> fst (snd e) \<noteq> None \<and> snd (snd e) \<noteq> None)"

definition well_formed :: "table \<Rightarrow> bool" where
  "well_formed info = (list_all resolved info \<and> sorted_wrt (<) (map time_of info))"

text \<open>The table of the two keyframes \<open>{0: [100, 100], 10: [200, 50]}\<close>.\<close>

definition example_table :: table where
  "example_table = [(PInt 0, (Some 100, Some 100)), (PInt 10, (Some 200, Some 50))]"

section \<open>The frame plan of real-video mode: \<open>scaleImages\<close>\<close>

text \<open>
  \<open>np.arange(0, time, step)\<close> has \<open>ceil(time / step)\<close> elements (none when that is not
  positive), the \<open>i\<close>-th being \<open>i * step\<close>. \<open>scaleImages\<close> walks them with their index:
  it exits when the frame image of the index is not on disk, resizes it to the interpolated
  size otherwise, and returns the last index (0 when there was no frame). The model returns
  the list of resized frames \<open>(index, size)\<close> beside the count; \<open>frame_exists i\<close> says
  whether \<open>temp/frame-i.png\<close> is on disk.
\<close>

definition arange :: "rat \<Rightarrow> rat \<Rightarrow> rat list" where
  "arange stop step = map (\<lambda>i. of_nat i * step) [0..<nat \<lceil>stop / step\<rceil>]"

fun scale_loop :: "(nat \<Rightarrow> bool) \<Rightarrow> table \<Rightarrow> (nat \<times> rat) list \<Rightarrow> (nat \<times> int \<times> int) list \<Rightarrow> nat
    \<Rightarrow> error + ((nat \<times> int \<times> int) list \<times> nat)" where
  "scale_loop frame_exists info [] resized count = Inr (resized, count)"
| "scale_loop frame_exists info ((i, t) # rest) resized count =
     (if \<not> frame_exists i then Inl (Exit ''Try to read non-existent frame image'')
      else case getInterpolatedSize info t of
             Inl e \<Rightarrow> Inl e
           | Inr sz \<Rightarrow> scale_loop frame_exists info rest (resized @ [(i, sz)]) i)"

definition scaleImages :: "(nat \<Rightarrow> bool) \<Rightarrow> table \<Rightarrow> int \<Rightarrow> rat
    \<Rightarrow> error + ((nat \<times> int \<times> int) list \<times> nat)" where
  "scaleImages frame_exists info fps time =
     (if fps = 0 then Inl ZeroDivisionError
      else scale_loop frame_exists info (enumerate 0 (arange time (1 / of_int fps))) [] 0)"

text \<open>The times alone: every time is a number and the times increase strictly in table order.\<close>

definition increasing_times :: "table \<Rightarrow> bool" where
  "increasing_times info =
     (list_all (\<lambda>e. num_of (fst e) \<noteq> None) info \<and> sorted_wrt (<) (map time_of info))"

section \<open>Strings of numbers\<close>

text \<open>
  \<open>str(n)\<close> of a non-negative integer is its decimal digits; \<open>str\<close> of a negative one has
  a leading minus sign. What Python prints for a float is not computed here: the function
  \<open>float_repr\<close> is a parameter of every definition that formats a float.
\<close>

definition digit_char :: "nat \<Rightarrow> char" where
  "digit_char d = ''0123456789'' ! d"

function str_nat :: "nat \<Rightarrow> string" where
  "str_nat n = (if n < 10 then [digit_char n] else str_nat (n div 10) @ [digit_char (n mod 10)])"
  by pat_completeness auto
termination
  by (relation "measure id") auto

declare str_nat.simps [simp del]

definition str_int :: "int \<Rightarrow> string" where
  "str_int n = (if n < 0 then CHR ''-'' # str_nat (nat (- n)) else str_nat (nat n))"

fun py_str :: "(rat \<Rightarrow> string) \<Rightarrow> pyval \<Rightarrow> string" where
  "py_str float_repr PNone = ''None''"
| "py_str float_repr (PBool b) = (if b then ''True'' else ''False'')"
| "py_str float_repr (PInt n) = str_int n"
| "py_str float_repr (PFloat r) = float_repr r"
| "py_str float_repr (PStr s) = s"

section \<open>Transparent mode: \<open>makeTransparentImages\<close>\<close>

text \<open>
  Frame \<open>i\<close> is sampled at \<open>(i * (1 / fps)) % duration\<close>; both the division by \<open>fps\<close> and
  the modulo by \<open>duration\<close> raise \<open>ZeroDivisionError\<close> at zero. Python's float \<open>%\<close> takes the
  sign of the divisor.
\<close>

definition py_mod :: "rat \<Rightarrow> rat \<Rightarrow> rat" where
  "py_mod x d = x - d * of_int \<lfloor>x / d\<rfloor>"

definition frame_time :: "rat \<Rightarrow> rat \<Rightarrow> nat \<Rightarrow> error + rat" where
  "frame_time fps duration i =
     (if fps = 0 \<or> duration = 0 then Inl ZeroDivisionError
      else Inr (py_mod (of_nat i * (1 / fps)) duration))"

text \<open>
  The loop state: \<open>imageDict\<close> from size to canonical index, the next free \<open>index\<close>, the
  \<open>indexList\<close> with one canonical index per frame, and the PNG files saved so far, each
  \<open>temp/frame-index.png\<close> with its size.
\<close>

record dedup =
  imageDict :: "(int \<times> int) \<rightharpoonup> nat"
  index :: nat
  indexList :: "nat list"
  images :: "(nat \<times> int \<times> int) list"

definition dedup_init :: dedup where
  "dedup_init = \<lparr>imageDict = Map.empty, index = 0, indexList = [], images = []\<rparr>"

definition dedup_step :: "dedup \<Rightarrow> int \<times> int \<Rightarrow> dedup" where
  "dedup_step st sz =
     (case imageDict st sz of
        None \<Rightarrow>
          st\<lparr>imageDict := (imageDict st)(sz \<mapsto> index st),
             images := images st @ [(index st, sz)],
             indexList := indexList st @ [index st],
             index := index st + 1\<rparr>
      | Some c \<Rightarrow> st\<lparr>indexList := indexList st @ [c]\<rparr>)"

fun transparent_loop :: "table \<Rightarrow> rat \<Rightarrow> rat \<Rightarrow> nat list \<Rightarrow> dedup \<Rightarrow> error option \<times> dedup" where
  "transparent_loop info fps duration [] st = (None, st)"
| "transparent_loop info fps duration (i # rest) st =
     (case frame_time fps duration i of
        Inl e \<Rightarrow> (Some e, st)
      | Inr t \<Rightarrow>
          (case getInterpolatedSize info t of
             Inl e \<Rightarrow> (Some e, st)
           | Inr sz \<Rightarrow> transparent_loop info fps duration rest (dedup_step st sz)))"

text \<open>\<open>max\<close> of an empty list raises \<open>ValueError\<close>.\<close>

fun py_max :: "nat list \<Rightarrow> error + nat" where
  "py_max [] = Inl ValueError"
| "py_max (x # xs) = Inr (fold max xs x)"

definition concat_line :: "nat \<Rightarrow> string" where
  "concat_line i = ''file frame-'' @ str_nat i @ ''.webm'' @ [CHR 0x0A]"

text \<open>
  The result is what the function returns or raises, the loop state at that point, and the
  lines appended to \<open>temp/concat.txt\<close> (none when the loop did not finish).
\<close>

definition makeTransparentImages :: "table \<Rightarrow> int \<Rightarrow> rat \<Rightarrow> rat \<Rightarrow> (error + nat) \<times> dedup \<times> string list" where
  "makeTransparentImages info count fps duration =
     (case transparent_loop info fps duration [0..<nat count] dedup_init of
        (Some e, st) \<Rightarrow> (Inl e, st, [])
      | (None, st) \<Rightarrow> (py_max (indexList st), st, map concat_line (indexList st)))"

text \<open>\<open>frameCount = ceil(duration * fps * loop)\<close> of \<open>makeTransparentVideo\<close>.\<close>

definition frameCount :: "rat \<Rightarrow> rat \<Rightarrow> rat \<Rightarrow> int" where
  "frameCount duration fps loop = \<lceil>duration * fps * loop\<rceil>"

text \<open>
  For stating properties: the sizes a plan asks for, as the list of the loop's queries in
  order (the first failing query is the result when one fails), and the distinct elements
  of a list in order of first occurrence.
\<close>

fun collect :: "(error + 'a) list \<Rightarrow> error + 'a list" where
  "collect [] = Inr []"
| "collect (Inl e # rs) = Inl e"
| "collect (Inr v # rs) = (case collect rs of Inl e \<Rightarrow> Inl e | Inr vs \<Rightarrow> Inr (v # vs))"

definition query :: "table \<Rightarrow> rat \<Rightarrow> rat \<Rightarrow> nat \<Rightarrow> error + (int \<times> int)" where
  "query info fps duration i =
     (case frame_time fps duration i of Inl e \<Rightarrow> Inl e | Inr t \<Rightarrow> getInterpolatedSize info t)"

definition plan_sizes :: "table \<Rightarrow> rat \<Rightarrow> rat \<Rightarrow> int \<Rightarrow> error + (int \<times> int) list" where
  "plan_sizes info fps duration count = collect (map (query info fps duration) [0..<nat count])"

definition first_seen :: "'a list \<Rightarrow> 'a list" where
  "first_seen xs = rev (remdups (rev xs))"

text \<open>
  The invariant of the loop after the sizes \<open>seen\<close>: one saved image per distinct size in
  first-seen order, numbered from 0 upward; \<open>imageDict\<close> maps each of them to its number;
  \<open>indexList\<close> has one entry per size seen, and that entry's image has that size.
\<close>

definition dedup_inv :: "dedup \<Rightarrow> (int \<times> int) list \<Rightarrow> bool" where
  "dedup_inv st seen =
     (map snd (images st) = first_seen seen
      \<and> map fst (images st) = [0..<length (images st)]
      \<and> index st = length (images st)
      \<and> (\<forall>k < length (images st). imageDict st (snd (images st ! k)) = Some k)
      \<and> dom (imageDict st) = set seen
      \<and> length (indexList st) = length seen
      \<and> (\<forall>k < length seen. indexList st ! k < length (images st)
             \<and> snd (images st ! (indexList st ! k)) = seen ! k))"

text \<open>A table of constant size 100 x 100 over two seconds, and a table whose sizes at the
  times 0, 1, 2, 3 are A, B, A, C.\<close>

definition const_table :: table where
  "const_table = [(PInt 0, (Some 100, Some 100)), (PFloat 2, (Some 100, Some 100))]"

definition zigzag_table :: table where
  "zigzag_table = [(PInt 0, (Some 100, Some 100)), (PInt 1, (Some 200, Some 200)),
                   (PInt 2, (Some 100, Some 100)), (PInt 3, (Some 300, Some 300))]"

section \<open>Encoding the segments\<close>

text \<open>
  \<open>executeRawFfmpegCommad\<close> hands a command line to the shell; the model keeps the command
  line. \<open>createWebms\<close> encodes the frames \<open>0..count\<close> one after the other and, when \<open>write\<close>
  is set, appends one line per frame to \<open>temp/concat.txt\<close>. The model returns the commands
  run, in order, and the lines written.
\<close>

definition executeRawFfmpegCommad :: "string \<Rightarrow> string" where
  "executeRawFfmpegCommad cmd = ''ffmpeg -hide_banner -loglevel error '' @ cmd"

fun createWebms_loop :: "string \<Rightarrow> bool \<Rightarrow> nat list \<Rightarrow> string list \<times> string list
    \<Rightarrow> string list \<times> string list" where
  "createWebms_loop fps write [] (calls, written) = (calls, written)"
| "createWebms_loop fps write (i # rest) (calls, written) =
     (let basePath = ''temp/frame-'' @ str_nat i;
          cmd = ''-framerate '' @ fps @ '' -f image2 -i '' @ basePath
                @ ''.png -c:v libvpx-vp9 -pix_fmt yuva420p '' @ basePath @ ''.webm''
      in createWebms_loop fps write rest
           (calls @ [executeRawFfmpegCommad cmd],
            if write then written @ [''file '' @ basePath @ ''.webm\<newline>''] else written))"

definition createWebms :: "(rat \<Rightarrow> string) \<Rightarrow> pyval \<Rightarrow> nat \<Rightarrow> bool \<Rightarrow> string list \<times> string list" where
  "createWebms float_repr fps count write =
     createWebms_loop (py_str float_repr fps) write [0..<count + 1] ([], [])"

definition processSingleWebm :: "(rat \<Rightarrow> string) \<Rightarrow> nat \<Rightarrow> pyval \<Rightarrow> string" where
  "processSingleWebm float_repr i fps =
     (let basePath = ''temp/frame-'' @ str_nat i;
          cmd = ''-framerate '' @ py_str float_repr fps @ '' -f image2 -i '' @ basePath
                @ ''.png -c:v libvpx-vp9 '' @ basePath @ ''.webm''
      in executeRawFfmpegCommad cmd)"

text \<open>
  \<open>createWebmsFast\<close> gives the jobs \<open>0..count\<close> to a process pool. \<open>order\<close> is the order in
  which the pool happens to run them (a permutation of \<open>0..count\<close>); the lines are written
  after the pool has finished, by the calling process.
\<close>

definition createWebmsFast :: "(rat \<Rightarrow> string) \<Rightarrow> nat list \<Rightarrow> pyval \<Rightarrow> nat \<Rightarrow> bool
    \<Rightarrow> string list \<times> string list" where
  "createWebmsFast float_repr order fps count write =
     (map (\<lambda>i. processSingleWebm float_repr i fps) order,
      if write then map (\<lambda>i. ''file '' @ (''frame-'' @ str_nat i) @ ''.webm\<newline>'') [0..<count + 1]
      else [])"



section \<open>The output path and the final mux\<close>

text \<open>
  \<open>s.replace(old, new)\<close> replaces the occurrences of \<open>old\<close> from left to right, without
  overlap; for an empty \<open>old\<close> Python puts \<open>new\<close> before every character and at the end.
  \<open>contains sub s\<close> is Python's \<open>sub in s\<close>.
\<close>

function replace_ne :: "string \<Rightarrow> string \<Rightarrow> string \<Rightarrow> string" where
  "replace_ne old new [] = []"
| "replace_ne old new (c # cs) =
     (if old \<noteq> [] \<and> take (length old) (c # cs) = old
      then new @ replace_ne old new (drop (length old) (c # cs))
      else c # replace_ne old new cs)"
  by pat_completeness auto
termination
  by (relation "measure (\<lambda>(old, new, s). length s)") auto

definition str_replace :: "string \<Rightarrow> string \<Rightarrow> string \<Rightarrow> string" where
  "str_replace old new s =
     (if old = [] then new @ concat (map (\<lambda>c. c # new) s) else replace_ne old new s)"

definition contains :: "string \<Rightarrow> string \<Rightarrow> bool" where
  "contains sub s = list_ex (\<lambda>i. take (length sub) (drop i s) = sub) [0..<Suc (length s)]"

definition endswith :: "string \<Rightarrow> string \<Rightarrow> bool" where
  "endswith s suf = (length suf \<le> length s \<and> drop (length s - length suf) s = suf)"

text \<open>\<open>setAudio\<close> runs the mux command; its last argument is the output file.\<close>

definition getOutput :: "string \<Rightarrow> string" where
  "getOutput video = str_replace ''.mp4'' ''_resized.webm'' video"

definition setAudio :: "string \<Rightarrow> string" where
  "setAudio video = executeRawFfmpegCommad
     (''-i temp/out.webm -i temp/audio.wav -map 0:V:0 -map 1:a:0 -c:v copy -c:a libopus -b:a 160k -f webm ''
      @ getOutput video)"

section \<open>Reading the instructions\<close>

text \<open>
  Three builtins of Python are parameters of the model: what \<open>str\<close> prints for a float, and
  how \<open>float\<close> and \<open>int\<close> read a string (\<open>None\<close> when they raise \<open>ValueError\<close>).
\<close>

record builtins =
  repr_of_float :: "rat \<Rightarrow> string"
  float_of_str :: "string \<Rightarrow> rat option"
  int_of_str :: "string \<Rightarrow> int option"

text \<open>\<open>float(v)\<close> and \<open>int(v)\<close>; \<open>None\<close> stands for the exception they raise.\<close>

fun py_float :: "builtins \<Rightarrow> pyval \<Rightarrow> rat option" where
  "py_float py (PInt n) = Some (of_int n)"
| "py_float py (PFloat r) = Some r"
| "py_float py (PBool b) = Some (if b then 1 else 0)"
| "py_float py (PStr s) = float_of_str py s"
| "py_float py PNone = None"

fun py_to_int :: "builtins \<Rightarrow> pyval \<Rightarrow> int option" where
  "py_to_int py (PInt n) = Some n"
| "py_to_int py (PFloat r) = Some (py_int r)"
| "py_to_int py (PBool b) = Some (if b then 1 else 0)"
| "py_to_int py (PStr s) = int_of_str py s"
| "py_to_int py PNone = None"

text \<open>\<open>s.isdigit()\<close> on ASCII strings: not empty and every character a decimal digit.\<close>

definition isdigit :: "string \<Rightarrow> bool" where
  "isdigit s = (s \<noteq> [] \<and> list_all (\<lambda>c. c \<in> set ''0123456789'') s)"

text \<open>
  The instruction file, when it exists, holds an object that may have the key \<open>keyframes\<close>,
  a list of objects. A keyframe may have the keys \<open>time\<close>, a scalar, and \<open>size\<close>, an object
  of scalars. Other shapes of JSON are outside the model.
\<close>

record keyframe =
  kf_time :: "pyval option"
  kf_size :: "(string \<times> pyval) list option"

record instructions =
  keyframes :: "keyframe list option"

text \<open>
  \<open>info[time] = [kfWidth, kfHeight]\<close>: a key equal to one already in the dict (an integer and
  a float of the same value are equal) keeps its place and takes the new value; a new key
  goes to the end.
\<close>

fun key_eq :: "pyval \<Rightarrow> pyval \<Rightarrow> bool" where
  "key_eq (PStr s) (PStr t) = (s = t)"
| "key_eq (PStr s) b = False"
| "key_eq a (PStr t) = False"
| "key_eq PNone PNone = True"
| "key_eq PNone b = False"
| "key_eq a PNone = False"
| "key_eq a b = (num_of a = num_of b)"

fun dict_set :: "table \<Rightarrow> pyval \<Rightarrow> dims \<Rightarrow> table" where
  "dict_set [] k v = [(k, v)]"
| "dict_set ((k', v') # rest) k v =
     (if key_eq k' k then (k', v) # rest else (k', v') # dict_set rest k v)"

text \<open>
  The five \<open>if\<close> statements inside \<open>try\<close>, each taking the pair \<open>(kfWidth, kfHeight)\<close> so far;
  \<open>None\<close> stands for the exception that the \<open>except\<close> clause turns into
  \<open>Invalid size for keyframe\<close>.
\<close>

definition if_scale :: "builtins \<Rightarrow> rat \<Rightarrow> rat \<Rightarrow> (string \<times> pyval) list \<Rightarrow> dims \<Rightarrow> dims option" where
  "if_scale py width height sz d =
     (case map_of sz ''scale'' of
        None \<Rightarrow> Some d
      | Some v \<Rightarrow>
          (case py_float py v of
             None \<Rightarrow> None
           | Some f \<Rightarrow> Some (Some (py_int (width * f)), Some (py_int (height * f)))))"

definition if_wScale :: "builtins \<Rightarrow> rat \<Rightarrow> (string \<times> pyval) list \<Rightarrow> dims \<Rightarrow> dims option" where
  "if_wScale py width sz d =
     (case map_of sz ''wScale'' of
        None \<Rightarrow> Some d
      | Some v \<Rightarrow>
          (case py_float py v of None \<Rightarrow> None | Some f \<Rightarrow> Some (Some (py_int (width * f)), snd d)))"

definition if_hScale :: "builtins \<Rightarrow> rat \<Rightarrow> (string \<times> pyval) list \<Rightarrow> dims \<Rightarrow> dims option" where
  "if_hScale py height sz d =
     (case map_of sz ''hScale'' of
        None \<Rightarrow> Some d
      | Some v \<Rightarrow>
          (case py_float py v of None \<Rightarrow> None | Some f \<Rightarrow> Some (fst d, Some (py_int (height * f)))))"

definition if_width :: "builtins \<Rightarrow> (string \<times> pyval) list \<Rightarrow> dims \<Rightarrow> dims option" where
  "if_width py sz d =
     (case map_of sz ''width'' of
        None \<Rightarrow> Some d
      | Some v \<Rightarrow> (case py_to_int py v of None \<Rightarrow> None | Some n \<Rightarrow> Some (Some n, snd d)))"

definition if_height :: "builtins \<Rightarrow> (string \<times> pyval) list \<Rightarrow> dims \<Rightarrow> dims option" where
  "if_height py sz d =
     (case map_of sz ''height'' of
        None \<Rightarrow> Some d
      | Some v \<Rightarrow> (case py_to_int py v of None \<Rightarrow> None | Some n \<Rightarrow> Some (fst d, Some n)))"

definition resolve_size :: "builtins \<Rightarrow> rat \<Rightarrow> rat \<Rightarrow> (string \<times> pyval) list \<Rightarrow> dims option" where
  "resolve_size py width height sz =
     Option.bind (if_scale py width height sz (None, None)) (\<lambda>d1.
     Option.bind (if_wScale py width sz d1) (\<lambda>d2.
     Option.bind (if_hScale py height sz d2) (\<lambda>d3.
     Option.bind (if_width py sz d3) (\<lambda>d4.
     if_height py sz d4))))"

text \<open>\<open>end\<close> stands for the duration; the time is accepted when \<open>str(time)\<close>, with its
  first dot removed, is all digits.\<close>

definition resolve_time :: "rat \<Rightarrow> pyval \<Rightarrow> pyval" where
  "resolve_time duration time = (if time = PStr ''end'' then PFloat duration else time)"

definition time_accepted :: "builtins \<Rightarrow> pyval \<Rightarrow> bool" where
  "time_accepted py time = isdigit (remove1 (CHR ''.'') (py_str (repr_of_float py) time))"

text \<open>
  The loop over the keyframes. The second test of \<open>"time" in kf\<close>, the one that would exit
  with \<open>No size for keyframe\<close>, is kept as the source has it; \<open>kf["size"]\<close> on a keyframe
  without size raises \<open>KeyError\<close>.
\<close>

fun read_loop :: "builtins \<Rightarrow> rat \<Rightarrow> rat \<Rightarrow> rat \<Rightarrow> keyframe list \<Rightarrow> table \<Rightarrow> error + table" where
  "read_loop py width height duration [] info = Inr info"
| "read_loop py width height duration (kf # rest) info =
     (case kf_time kf of
        None \<Rightarrow> Inl (Exit ''No time for keyframe'')
      | Some t \<Rightarrow>
          (let time = resolve_time duration t in
           if \<not> time_accepted py time then Inl (Exit ''invalid time'')
           else if kf_time kf = None then Inl (Exit ''No size for keyframe'')
           else
             (case kf_size kf of
                None \<Rightarrow> Inl KeyError
              | Some sz \<Rightarrow>
                  (case resolve_size py width height sz of
                     None \<Rightarrow> Inl (Exit ''Invalid size for keyframe'')
                   | Some d \<Rightarrow> read_loop py width height duration rest (dict_set info time d)))))"

definition readInstructions :: "builtins \<Rightarrow> rat \<Rightarrow> rat \<Rightarrow> rat \<Rightarrow> instructions option \<Rightarrow> error + table" where
  "readInstructions py width height duration file =
     (case file of
        None \<Rightarrow> Inl (Exit ''No instruction!'')
      | Some instructions \<Rightarrow>
          (case keyframes instructions of
             None \<Rightarrow> Inl (Exit ''No keyframe data'')
           | Some kfs \<Rightarrow> read_loop py width height duration kfs []))"

text \<open>Builtins and instruction sets for the examples.\<close>

definition example_builtins :: builtins where
  "example_builtins =
     \<lparr>repr_of_float = (\<lambda>r. if r = 2 then ''2.0'' else if r = 10 then ''10.0'' else ''0.5''),
      float_of_str = (\<lambda>s. if s = ''0.5'' then Some (1 / 2) else None),
      int_of_str = (\<lambda>s. if s = ''100'' then Some 100 else None)\<rparr>"

definition kf :: "pyval \<Rightarrow> (string \<times> pyval) list \<Rightarrow> keyframe" where
  "kf t s = \<lparr>kf_time = Some t, kf_size = Some s\<rparr>"

definition two_keyframes :: "keyframe list" where
  "two_keyframes = [kf (PInt 0) [(''width'', PInt 100), (''height'', PInt 100)],
                    kf (PStr ''end'') [(''width'', PInt 200), (''height'', PInt 50)]]"

section \<open>The command line\<close>

text \<open>
  The positional argument is declared with \<open>type=ascii\<close>: argparse replaces the string by
  \<open>ascii(string)\<close>, Python's \<open>repr\<close> with every non-ASCII character escaped. The result is
  the text between two quote characters: single quotes, or double quotes when the text has
  a single quote and no double quote. Characters are 8-bit here; the quote in use and the
  backslash get a backslash, tab, newline and return their letter, and every other
  character outside the printable ASCII range its two hexadecimal digits.
\<close>

definition hex2 :: "nat \<Rightarrow> string" where
  "hex2 n = [''0123456789abcdef'' ! (n div 16), ''0123456789abcdef'' ! (n mod 16)]"

definition ascii_quote :: "string \<Rightarrow> char" where
  "ascii_quote s = (if CHR 0x27 \<in> set s \<and> CHR 0x22 \<notin> set s then CHR 0x22 else CHR 0x27)"

definition ascii_char :: "char \<Rightarrow> char \<Rightarrow> string" where
  "ascii_char q c =
     (if c = q \<or> c = CHR 0x5C then [CHR 0x5C, c]
      else if c = CHR 0x09 then [CHR 0x5C, CHR ''t'']
      else if c = CHR 0x0A then [CHR 0x5C, CHR ''n'']
      else if c = CHR 0x0D then [CHR 0x5C, CHR ''r'']
      else if (of_char c :: nat) < 32 \<or> 127 \<le> (of_char c :: nat)
        then [CHR 0x5C, CHR ''x''] @ hex2 (of_char c)
      else [c])"

definition py_ascii :: "string \<Rightarrow> string" where
  "py_ascii s = ascii_quote s # concat (map (ascii_char (ascii_quote s)) s) @ [ascii_quote s]"

text \<open>\<open>re.search(r'\.(mp4|webm)$', s)\<close>: \<open>$\<close> matches at the end of the string and before a
  newline that ends the string.\<close>

definition re_search_ext :: "string \<Rightarrow> bool" where
  "re_search_ext s =
     (endswith s ''.mp4'' \<or> endswith s ''.webm''
      \<or> endswith s ''.mp4\<newline>'' \<or> endswith s ''.webm\<newline>'')"

text \<open>The parsed arguments, before \<open>type=ascii\<close> is applied to \<open>input\<close>.\<close>

record args =
  input :: "string option"
  slow :: bool
  transparent :: "rat list option"

section \<open>The run\<close>

text \<open>
  What a run meets outside the program is its environment: the builtins, the instruction
  file, a keyboard interrupt arriving at the start of one stage of the guarded block (or
  none), the order in which the process pool runs the jobs for a given count, which paths
  and which extracted frames exist, and what the probe of the input returns (duration,
  width, height, frame rate) or raises.
\<close>

datatype stage =
    Prepare | ReadInstructions | MakeImages | ExtractFrames | ScaleImages
  | Encode | Concat | ExtractAudio | SetAudio | MoveToOutput

record env =
  builtins_of :: builtins
  instruction_file :: "instructions option"
  interrupt :: "stage option"
  pool_order :: "nat \<Rightarrow> nat list"
  path_exists :: "string \<Rightarrow> bool"
  probe :: "string \<Rightarrow> error + (rat \<times> int \<times> int \<times> int)"
  frame_on_disk :: "nat \<Rightarrow> bool"

text \<open>
  What a run changes is the world: whether \<open>./temp\<close> exists, the lines of
  \<open>temp/concat.txt\<close>, the command lines run, the paths the result was moved to, and what
  was printed of \<open>Cleanup...\<close> and \<open>Done!\<close>. External tools are taken to do their work; a
  step of the program returns a value or raises, and hands on the world.
\<close>

record world =
  temp_dir :: bool
  concat_txt :: "string list"
  ffmpeg_calls :: "string list"
  moved_to :: "string list"
  printed :: "string list"

type_synonym 'a run = "world \<Rightarrow> (error + 'a) \<times> world"

definition bind_run :: "'a run \<Rightarrow> ('a \<Rightarrow> 'b run) \<Rightarrow> 'b run" where
  "bind_run m f w = (case m w of (Inl e, w') \<Rightarrow> (Inl e, w') | (Inr a, w') \<Rightarrow> f a w')"

definition at_stage :: "env \<Rightarrow> stage \<Rightarrow> unit run" where
  "at_stage ev s w = (if interrupt ev = Some s then (Inl KeyboardInterrupt, w) else (Inr (), w))"

definition cleanup :: "bool \<Rightarrow> world \<Rightarrow> world" where
  "cleanup surpressPrint w =
     (let w1 = (if \<not> surpressPrint then w\<lparr>printed := printed w @ [''Cleanup...'']\<rparr> else w)
      in if temp_dir w1 then w1\<lparr>temp_dir := False, concat_txt := []\<rparr> else w1)"

definition prepare :: "world \<Rightarrow> world" where
  "prepare w = (let w1 = cleanup True w in if \<not> temp_dir w1 then w1\<lparr>temp_dir := True\<rparr> else w1)"

definition run_ffmpeg :: "string list \<Rightarrow> world \<Rightarrow> world" where
  "run_ffmpeg calls w = w\<lparr>ffmpeg_calls := ffmpeg_calls w @ calls\<rparr>"

definition append_concat :: "string list \<Rightarrow> world \<Rightarrow> world" where
  "append_concat ls w = w\<lparr>concat_txt := concat_txt w @ ls\<rparr>"

definition concatWebms :: "world \<Rightarrow> world" where
  "concatWebms w = run_ffmpeg
     [executeRawFfmpegCommad ''-f concat -safe 0 -i temp/concat.txt -c copy -y temp/out.webm''] w"

definition extractAudio :: "string \<Rightarrow> world \<Rightarrow> world" where
  "extractAudio video w = run_ffmpeg
     [executeRawFfmpegCommad (''-y -i '' @ video @ '' temp/audio.wav'')] w"

definition moveToOutput :: "string \<Rightarrow> world \<Rightarrow> world" where
  "moveToOutput video w = w\<lparr>moved_to := moved_to w @ [getOutput video]\<rparr>"

text \<open>
  The context manager \<open>safeExit\<close>. \<open>__exit__\<close> returns true, which swallows the exception,
  only for \<open>KeyboardInterrupt\<close>, after calling \<open>onExit\<close> when there is one; for anything else
  it returns \<open>None\<close> and the exception goes on. \<open>with_safeExit\<close> is the \<open>with\<close> statement.
\<close>

record safeExit =
  onExit :: "(world \<Rightarrow> world) option"

definition safeExit_exit :: "safeExit \<Rightarrow> error option \<Rightarrow> world \<Rightarrow> bool \<times> world" where
  "safeExit_exit self exitType w =
     (if exitType = Some KeyboardInterrupt
      then (True, case onExit self of Some f \<Rightarrow> f w | None \<Rightarrow> w)
      else (False, w))"

definition with_safeExit :: "safeExit \<Rightarrow> unit run \<Rightarrow> unit run" where
  "with_safeExit self body w =
     (case body w of
        (Inr u, w1) \<Rightarrow> (Inr (), snd (safeExit_exit self None w1))
      | (Inl e, w1) \<Rightarrow>
          (case safeExit_exit self (Some e) w1 of
             (True, w2) \<Rightarrow> (Inr (), w2)
           | (False, w2) \<Rightarrow> (Inl e, w2)))"

text \<open>The choice between the two encoders, and the number a value stands for.\<close>

definition encode :: "env \<Rightarrow> bool \<Rightarrow> pyval \<Rightarrow> nat \<Rightarrow> bool \<Rightarrow> world \<Rightarrow> world" where
  "encode ev slw fps count write w =
     (let (calls, ls) =
        (if slw then createWebms (repr_of_float (builtins_of ev)) fps count write
         else createWebmsFast (repr_of_float (builtins_of ev)) (pool_order ev count) fps count write)
      in append_concat ls (run_ffmpeg calls w))"

definition py_num :: "pyval \<Rightarrow> rat" where
  "py_num v = (case num_of v of Some r \<Rightarrow> r | None \<Rightarrow> 0)"

text \<open>The block under \<open>with safeExit()\<close> in \<open>makeTransparentVideo\<close>, and the function.\<close>

definition transparent_body :: "env \<Rightarrow> bool \<Rightarrow> rat \<Rightarrow> pyval \<Rightarrow> pyval \<Rightarrow> pyval \<Rightarrow> int \<Rightarrow> unit run" where
  "transparent_body ev slw duration fps width height frames =
     bind_run (at_stage ev Prepare) (\<lambda>_.
     bind_run (\<lambda>w. (Inr (), prepare w)) (\<lambda>_.
     bind_run (at_stage ev ReadInstructions) (\<lambda>_.
     bind_run (\<lambda>w. (readInstructions (builtins_of ev) (py_num width) (py_num height) duration
                       (instruction_file ev), w)) (\<lambda>info.
     bind_run (at_stage ev MakeImages) (\<lambda>_.
     bind_run (\<lambda>w. case makeTransparentImages info frames (py_num fps) duration of
                      (ret, st, ls) \<Rightarrow> (ret, append_concat ls w)) (\<lambda>actualCount.
     bind_run (at_stage ev Encode) (\<lambda>_.
     bind_run (\<lambda>w. (Inr (), encode ev slw fps actualCount False w)) (\<lambda>_.
     bind_run (at_stage ev Concat) (\<lambda>_.
     bind_run (\<lambda>w. (Inr (), concatWebms w)) (\<lambda>_.
     bind_run (at_stage ev MoveToOutput) (\<lambda>_.
     (\<lambda>w. (Inr (), moveToOutput ''out.mp4'' w)))))))))))))"

definition makeTransparentVideo :: "env \<Rightarrow> bool \<Rightarrow> rat \<Rightarrow> pyval \<Rightarrow> pyval \<Rightarrow> pyval \<Rightarrow> pyval \<Rightarrow> unit run" where
  "makeTransparentVideo ev slw duration fps width height loop =
     (let frames = frameCount duration (py_num fps) (py_num loop) in
      bind_run (with_safeExit \<lparr>onExit = None\<rparr>
                  (transparent_body ev slw duration fps width height frames)) (\<lambda>_.
      (\<lambda>w. (Inr (), (cleanup False w)\<lparr>printed := printed (cleanup False w) @ [''Done!'']\<rparr>))))"

text \<open>The block under \<open>with safeExit()\<close> in \<open>processVideo\<close>, and the function. The probe
  comes before the block.\<close>

definition video_body :: "env \<Rightarrow> string \<Rightarrow> bool \<Rightarrow> rat \<Rightarrow> int \<Rightarrow> int \<Rightarrow> int \<Rightarrow> unit run" where
  "video_body ev inputFilePath slw time width height fps =
     bind_run (at_stage ev Prepare) (\<lambda>_.
     bind_run (\<lambda>w. (Inr (), prepare w)) (\<lambda>_.
     bind_run (at_stage ev ReadInstructions) (\<lambda>_.
     bind_run (\<lambda>w. (readInstructions (builtins_of ev) (of_int width) (of_int height) time
                       (instruction_file ev), w)) (\<lambda>info.
     bind_run (at_stage ev ExtractFrames) (\<lambda>_.
     bind_run (at_stage ev ScaleImages) (\<lambda>_.
     bind_run (\<lambda>w. (case scaleImages (frame_on_disk ev) info fps time of
                       Inl e \<Rightarrow> Inl e | Inr (plan, count) \<Rightarrow> Inr count, w)) (\<lambda>count.
     bind_run (at_stage ev Encode) (\<lambda>_.
     bind_run (\<lambda>w. (Inr (), encode ev slw (PInt fps) count True w)) (\<lambda>_.
     bind_run (at_stage ev Concat) (\<lambda>_.
     bind_run (\<lambda>w. (Inr (), concatWebms w)) (\<lambda>_.
     bind_run (at_stage ev ExtractAudio) (\<lambda>_.
     bind_run (\<lambda>w. (Inr (), extractAudio inputFilePath w)) (\<lambda>_.
     bind_run (at_stage ev SetAudio) (\<lambda>_.
     (\<lambda>w. (Inr (), run_ffmpeg [setAudio inputFilePath] w))))))))))))))))"

definition processVideo :: "env \<Rightarrow> string \<Rightarrow> bool \<Rightarrow> unit run" where
  "processVideo ev inputFilePath slw =
     bind_run (\<lambda>w. (probe ev inputFilePath, w)) (\<lambda>(time, width, height, fps).
     bind_run (with_safeExit \<lparr>onExit = None\<rparr>
                 (video_body ev inputFilePath slw time width height fps)) (\<lambda>_.
     (\<lambda>w. (Inr (), (cleanup False w)\<lparr>printed := printed (cleanup False w) @ [''Done!'']\<rparr>))))"

text \<open>
  \<open>makeTransparentVideo(args.slow, *args.transparent)\<close>: the floats of the command line fill
  the parameters from \<open>duration\<close> on, the others keep their defaults 30, 500, 500 and 1; more
  than five floats are too many arguments.
\<close>

definition call_makeTransparentVideo :: "env \<Rightarrow> bool \<Rightarrow> rat list \<Rightarrow> unit run" where
  "call_makeTransparentVideo ev slw xs =
     (case xs of
        [] \<Rightarrow> (\<lambda>w. (Inl TypeError, w))
      | [d] \<Rightarrow> makeTransparentVideo ev slw d (PInt 30) (PInt 500) (PInt 500) (PInt 1)
      | [d, f] \<Rightarrow> makeTransparentVideo ev slw d (PFloat f) (PInt 500) (PInt 500) (PInt 1)
      | [d, f, wd] \<Rightarrow> makeTransparentVideo ev slw d (PFloat f) (PFloat wd) (PInt 500) (PInt 1)
      | [d, f, wd, ht] \<Rightarrow> makeTransparentVideo ev slw d (PFloat f) (PFloat wd) (PFloat ht) (PInt 1)
      | [d, f, wd, ht, l] \<Rightarrow> makeTransparentVideo ev slw d (PFloat f) (PFloat wd) (PFloat ht) (PFloat l)
      | _ \<Rightarrow> (\<lambda>w. (Inl TypeError, w)))"

text \<open>\<open>given x\<close> is the truth value Python gives an optional list or string.\<close>

definition given :: "'a list option \<Rightarrow> bool" where
  "given x = (x \<noteq> None \<and> x \<noteq> Some [])"

definition main :: "env \<Rightarrow> args \<Rightarrow> unit run" where
  "main ev a =
     (let args_input = map_option py_ascii (input a) in
      if \<not> given args_input \<and> \<not> given (transparent a)
      then (\<lambda>w. (Inl (Exit ''No input given!''), w))
      else if given (transparent a)
      then
        (case transparent a of
           None \<Rightarrow> (\<lambda>w. (Inl TypeError, w))
         | Some xs \<Rightarrow>
             bind_run (call_makeTransparentVideo ev (slow a) xs) (\<lambda>_ w. (Inl ExitSuccess, w)))
      else
        (case args_input of
           None \<Rightarrow> (\<lambda>w. (Inl TypeError, w))
         | Some inputFilePath \<Rightarrow>
             if \<not> re_search_ext inputFilePath then (\<lambda>w. (Inl (Exit ''No valid input file.''), w))
             else if \<not> path_exists ev inputFilePath
               then (\<lambda>w. (Inl (Exit ''Input file does not exist.''), w))
             else processVideo ev inputFilePath (slow a)))"

text \<open>The steps of the two blocks after \<open>prepare()\<close>, and what it means for a step to leave
  the staging directory as it is.\<close>

definition transparent_rest :: "env \<Rightarrow> bool \<Rightarrow> rat \<Rightarrow> pyval \<Rightarrow> pyval \<Rightarrow> pyval \<Rightarrow> int \<Rightarrow> unit run" where
  "transparent_rest ev slw duration fps width height frames =
     bind_run (at_stage ev ReadInstructions) (\<lambda>_.
     bind_run (\<lambda>w. (readInstructions (builtins_of ev) (py_num width) (py_num height) duration
                       (instruction_file ev), w)) (\<lambda>info.
     bind_run (at_stage ev MakeImages) (\<lambda>_.
     bind_run (\<lambda>w. case makeTransparentImages info frames (py_num fps) duration of
                      (ret, st, ls) \<Rightarrow> (ret, append_concat ls w)) (\<lambda>actualCount.
     bind_run (at_stage ev Encode) (\<lambda>_.
     bind_run (\<lambda>w. (Inr (), encode ev slw fps actualCount False w)) (\<lambda>_.
     bind_run (at_stage ev Concat) (\<lambda>_.
     bind_run (\<lambda>w. (Inr (), concatWebms w)) (\<lambda>_.
     bind_run (at_stage ev MoveToOutput) (\<lambda>_.
     (\<lambda>w. (Inr (), moveToOutput ''out.mp4'' w)))))))))))"

definition video_rest :: "env \<Rightarrow> string \<Rightarrow> bool \<Rightarrow> rat \<Rightarrow> int \<Rightarrow> int \<Rightarrow> int \<Rightarrow> unit run" where
  "video_rest ev inputFilePath slw time width height fps =
     bind_run (at_stage ev ReadInstructions) (\<lambda>_.
     bind_run (\<lambda>w. (readInstructions (builtins_of ev) (of_int width) (of_int height) time
                       (instruction_file ev), w)) (\<lambda>info.
     bind_run (at_stage ev ExtractFrames) (\<lambda>_.
     bind_run (at_stage ev ScaleImages) (\<lambda>_.
     bind_run (\<lambda>w. (case scaleImages (frame_on_disk ev) info fps time of
                       Inl e \<Rightarrow> Inl e | Inr (plan, count) \<Rightarrow> Inr count, w)) (\<lambda>count.
     bind_run (at_stage ev Encode) (\<lambda>_.
     bind_run (\<lambda>w. (Inr (), encode ev slw (PInt fps) count True w)) (\<lambda>_.
     bind_run (at_stage ev Concat) (\<lambda>_.
     bind_run (\<lambda>w. (Inr (), concatWebms w)) (\<lambda>_.
     bind_run (at_stage ev ExtractAudio) (\<lambda>_.
     bind_run (\<lambda>w. (Inr (), extractAudio inputFilePath w)) (\<lambda>_.
     bind_run (at_stage ev SetAudio) (\<lambda>_.
     (\<lambda>w. (Inr (), run_ffmpeg [setAudio inputFilePath] w))))))))))))))"

definition keeps_temp :: "'a run \<Rightarrow> bool" where
  "keeps_temp m = (\<forall>w. temp_dir (snd (m w)) = temp_dir w)"

text \<open>A world, environments and an instruction set for the examples.\<close>

definition world0 :: world where
  "world0 = \<lparr>temp_dir = False, concat_txt = [], ffmpeg_calls = [], moved_to = [], printed = []\<rparr>"

definition example_env :: env where
  "example_env = \<lparr>builtins_of = example_builtins,
     instruction_file = Some \<lparr>keyframes = Some two_keyframes\<rparr>,
     interrupt = None, pool_order = (\<lambda>count. rev [0..<count + 1]),
     path_exists = (\<lambda>_. True), probe = (\<lambda>_. Inr (10, 640, 480, 1)),
     frame_on_disk = (\<lambda>_. True)\<rparr>"

definition single_keyframe :: "keyframe list" where
  "single_keyframe = [kf (PInt 0) [(''width'', PInt 100), (''height'', PInt 100)]]"

definition single_env :: env where
  "single_env = example_env\<lparr>instruction_file := Some \<lparr>keyframes = Some single_keyframe\<rparr>\<rparr>"

(* PROPERTIES *)

section \<open>Properties of the interpolation\<close>

lemma scan_keeps_next:
  "num_of (fst n) = Some nt \<Longrightarrow> time \<le> nt \<Longrightarrow>
   scan time (Some p) (Some n) rest = Inr (Some p, Some n)"
  by (induction rest) auto

lemma scan_passes:
  "list_all (\<lambda>e. num_of (fst e) \<noteq> None \<and> time_of e < time) as \<Longrightarrow>
   scan time (Some p) None (as @ rest) = scan time (Some (last (p # as))) None rest"
  by (induction as arbitrary: p) (auto simp: time_of_def)

lemma scan_finds:
  assumes "list_all (\<lambda>e. num_of (fst e) \<noteq> None \<and> time_of e < time) as"
    and "num_of (fst n) = Some nt" and "time \<le> nt"
  shows "scan time (Some p) None (as @ n # rest) = Inr (Some (last (p # as)), Some n)"
  using assms by (simp add: scan_passes scan_keeps_next del: last.simps)

lemma scan_beyond:
  assumes "list_all (\<lambda>e. num_of (fst e) \<noteq> None \<and> time_of e < time) as"
  shows "scan time (Some p) None as = Inr (Some (last (p # as)), None)"
  using scan_passes[OF assms, of p "[]"] by simp

lemma resolved_num: "resolved e \<Longrightarrow> num_of (fst e) = Some (time_of e)"
  by (auto simp: resolved_def time_of_def)

lemma well_formed_nth_less:
  "well_formed info \<Longrightarrow> a < b \<Longrightarrow> b < length info \<Longrightarrow> time_of (info ! a) < time_of (info ! b)"
  by (simp add: well_formed_def sorted_wrt_iff_nth_less)

lemma well_formed_resolved:
  "well_formed info \<Longrightarrow> a < length info \<Longrightarrow> resolved (info ! a)"
  by (simp add: well_formed_def list_all_length)

text \<open>On a well-formed table the scan stops at the first entry after the first whose time
  is not below the query time, with the entry before it as \<open>prev\<close>.\<close>

lemma scan_bracket:
  assumes wf: "well_formed info" and j: "Suc j < length info"
    and lo: "j = 0 \<or> time_of (info ! j) < t" and hi: "t \<le> time_of (info ! Suc j)"
  shows "scan t None None info = Inr (Some (info ! j), Some (info ! Suc j))"
proof -
  obtain e0 rest where info: "info = e0 # rest"
    using j by (cases info) auto
  define as where "as = take j rest"
  have split: "rest = as @ rest ! j # drop (Suc j) rest"
    unfolding as_def using j info by (simp add: id_take_nth_drop [symmetric])
  have passed: "list_all (\<lambda>e. num_of (fst e) \<noteq> None \<and> time_of e < t) as"
    unfolding list_all_length
  proof (intro allI impI)
    fix k assume k: "k < length as"
    then have kj: "k < j" by (simp add: as_def)
    then have eq: "as ! k = info ! Suc k" by (simp add: as_def info)
    have "time_of (info ! Suc k) \<le> time_of (info ! j)"
      using well_formed_nth_less [OF wf, of "Suc k" j] kj j by (cases "Suc k = j") auto
    moreover have "time_of (info ! j) < t" using lo kj by auto
    moreover have "resolved (info ! Suc k)"
      using well_formed_resolved [OF wf, of "Suc k"] kj j by simp
    ultimately show "num_of (fst (as ! k)) \<noteq> None \<and> time_of (as ! k) < t"
      by (simp add: eq resolved_num)
  qed
  have n: "num_of (fst (rest ! j)) = Some (time_of (info ! Suc j))"
    using well_formed_resolved [OF wf, of "Suc j"] j by (simp add: info resolved_num)
  have last: "last (e0 # as) = info ! j"
  proof (cases j)
    case 0 then show ?thesis by (simp add: as_def info)
  next
    case (Suc m)
    then have "as \<noteq> []" using j by (auto simp: as_def info)
    then have "last (e0 # as) = as ! (length as - 1)" by (simp add: last_conv_nth)
    also have "\<dots> = info ! j" using j Suc by (simp add: as_def info min_def)
    finally show ?thesis .
  qed
  have "scan t None None info = scan t (Some e0) None (as @ rest ! j # drop (Suc j) rest)"
    using split by (simp add: info)
  also have "\<dots> = Inr (Some (last (e0 # as)), Some (rest ! j))"
    by (rule scan_finds [OF passed n hi])
  also have "\<dots> = Inr (Some (info ! j), Some (info ! Suc j))"
    unfolding last by (simp add: info)
  finally show ?thesis .
qed

lemma py_int_of_int: "py_int (of_int k) = k"
  by (simp add: py_int_def)

lemma interpolate_resolved:
  assumes "resolved p" "resolved n" "time_of p \<noteq> time_of n"
  shows "interpolate p n t =
    Inr (max 1 (py_int (of_int (width_of p)
                  + (t - time_of p) / (time_of n - time_of p) * of_int (width_of n - width_of p))),
         max 1 (py_int (of_int (height_of p)
                  + (t - time_of p) / (time_of n - time_of p) * of_int (height_of n - height_of p))))"
  using assms
  by (auto simp: interpolate_def resolved_def time_of_def width_of_def height_of_def)

lemma getInterpolatedSize_bracket:
  assumes wf: "well_formed info" and i: "Suc i < length info"
    and lo: "time_of (info ! i) \<le> t" and hi: "t \<le> time_of (info ! Suc i)"
  shows "getInterpolatedSize info t =
    Inr (max 1 (py_int (of_int (width_of (info ! i))
                  + (t - time_of (info ! i)) / (time_of (info ! Suc i) - time_of (info ! i))
                    * of_int (width_of (info ! Suc i) - width_of (info ! i)))),
         max 1 (py_int (of_int (height_of (info ! i))
                  + (t - time_of (info ! i)) / (time_of (info ! Suc i) - time_of (info ! i))
                    * of_int (height_of (info ! Suc i) - height_of (info ! i)))))"
proof -
  have ri: "resolved (info ! i)" and rs: "resolved (info ! Suc i)"
    using well_formed_resolved [OF wf] i by simp_all
  have lt: "time_of (info ! i) < time_of (info ! Suc i)"
    using well_formed_nth_less [OF wf, of i "Suc i"] i by simp
  show ?thesis
  proof (cases "i = 0 \<or> time_of (info ! i) < t")
    case True
    have "scan t None None info = Inr (Some (info ! i), Some (info ! Suc i))"
      by (rule scan_bracket [OF wf i True hi])
    then show ?thesis
      using interpolate_resolved [OF ri rs, of t] lt by (simp add: getInterpolatedSize_def)
  next
    case False
    then obtain m where m: "i = Suc m" and teq: "t = time_of (info ! i)"
      using lo by (cases i) auto
    have rm: "resolved (info ! m)" using well_formed_resolved [OF wf, of m] i m by simp
    have ltm: "time_of (info ! m) < time_of (info ! Suc m)"
      using well_formed_nth_less [OF wf, of m "Suc m"] i m by simp
    have "scan t None None info = Inr (Some (info ! m), Some (info ! Suc m))"
      using scan_bracket [OF wf, of m t] i m teq ltm by simp
    then have "getInterpolatedSize info t = interpolate (info ! m) (info ! Suc m) t"
      by (simp add: getInterpolatedSize_def)
    also have "\<dots> = Inr (max 1 (width_of (info ! i)), max 1 (height_of (info ! i)))"
      using interpolate_resolved [OF rm, of "info ! Suc m" t] ri ltm m teq
      by (simp add: py_int_of_int flip: of_int_add)
    finally show ?thesis using lt teq by (simp add: py_int_of_int)
  qed
qed



lemma example_table_well_formed: "well_formed example_table"
  by (simp add: well_formed_def example_table_def resolved_def time_of_def)


lemma getInterpolatedSize_short:
  "length info < 2 \<Longrightarrow> getInterpolatedSize info t = Inl (Exit ''Could not interpolate'')"
  by (cases info; cases "tl info") (auto simp: getInterpolatedSize_def)

lemma getInterpolatedSize_past_all:
  assumes "list_all (\<lambda>e. num_of (fst e) \<noteq> None \<and> time_of e < t) (tl info)"
  shows "getInterpolatedSize info t = Inl (Exit ''Could not interpolate'')"
proof (cases info)
  case Nil
  then show ?thesis by (simp add: getInterpolatedSize_def)
next
  case (Cons e0 rest)
  then show ?thesis
    using scan_beyond [of t rest e0] assms by (simp add: getInterpolatedSize_def)
qed

lemma increasing_times_past_last:
  assumes inc: "increasing_times info" and ne: "info \<noteq> []" and t: "time_of (last info) < t"
  shows "list_all (\<lambda>e. num_of (fst e) \<noteq> None \<and> time_of e < t) info"
  unfolding list_all_length
proof (intro allI impI)
  fix k assume k: "k < length info"
  have "time_of (info ! k) \<le> time_of (info ! (length info - 1))"
  proof (cases "k = length info - 1")
    case True then show ?thesis by simp
  next
    case False
    then have "k < length info - 1" using k by simp
    then show ?thesis
      using inc k by (simp add: increasing_times_def sorted_wrt_iff_nth_less less_imp_le)
  qed
  then have "time_of (info ! k) < t" using t ne by (simp add: last_conv_nth)
  moreover have "num_of (fst (info ! k)) \<noteq> None"
    using inc k by (simp add: increasing_times_def list_all_length)
  ultimately show "num_of (fst (info ! k)) \<noteq> None \<and> time_of (info ! k) < t" by simp
qed

lemma getInterpolatedSize_at_last:
  assumes wf: "well_formed info" and len: "2 \<le> length info"
  shows "getInterpolatedSize info (time_of (last info)) =
     Inr (max 1 (width_of (last info)), max 1 (height_of (last info)))"
proof -
  obtain i where i: "length info = Suc (Suc i)" using len by (cases info; cases "tl info") auto
  then have l: "last info = info ! Suc i" by (cases info) (auto simp: last_conv_nth)
  have lt: "time_of (info ! i) < time_of (info ! Suc i)"
    using well_formed_nth_less [OF wf, of i "Suc i"] i by simp
  show ?thesis
    using getInterpolatedSize_bracket [OF wf, of i "time_of (info ! Suc i)"] i lt
    by (simp add: l py_int_of_int flip: of_int_add)
qed

text \<open>
  Claim C2, as amended. On a table whose times are numbers in strictly increasing order,
  every query time strictly beyond the time of the last keyframe exits with
  \<open>Could not interpolate\<close>; so does every query on a table of fewer than two entries.
  A query exactly at the time of the last keyframe of a well-formed table of two or more
  entries does not fail: it returns the size of the last keyframe, clamped to at least 1.
\<close>

theorem sizeAt_beyond_last:
  "(increasing_times info \<and> info \<noteq> [] \<and> time_of (last info) < t
      \<longrightarrow> getInterpolatedSize info t = Inl (Exit ''Could not interpolate''))
   \<and> (length info < 2 \<longrightarrow> getInterpolatedSize info t = Inl (Exit ''Could not interpolate''))
   \<and> (well_formed info \<and> 2 \<le> length info
      \<longrightarrow> getInterpolatedSize info (time_of (last info)) =
            Inr (max 1 (width_of (last info)), max 1 (height_of (last info))))"
proof (intro conjI impI)
  assume h: "increasing_times info \<and> info \<noteq> [] \<and> time_of (last info) < t"
  then have "list_all (\<lambda>e. num_of (fst e) \<noteq> None \<and> time_of e < t) info"
    using increasing_times_past_last by blast
  then have "list_all (\<lambda>e. num_of (fst e) \<noteq> None \<and> time_of e < t) (tl info)"
    using h by (cases info) auto
  then show "getInterpolatedSize info t = Inl (Exit ''Could not interpolate'')"
    by (rule getInterpolatedSize_past_all)
next
  assume "length info < 2"
  then show "getInterpolatedSize info t = Inl (Exit ''Could not interpolate'')"
    by (rule getInterpolatedSize_short)
next
  assume "well_formed info \<and> 2 \<le> length info"
  then show "getInterpolatedSize info (time_of (last info)) =
            Inr (max 1 (width_of (last info)), max 1 (height_of (last info)))"
    using getInterpolatedSize_at_last by blast
qed

lemma example_table_increasing: "increasing_times example_table"
  by (simp add: increasing_times_def example_table_def time_of_def)

theorem sizeAt_beyond_last_witness:
  "increasing_times example_table \<and> example_table \<noteq> [] \<and> time_of (last example_table) < 11
   \<and> getInterpolatedSize example_table 11 = Inl (Exit ''Could not interpolate'')
   \<and> length [(PInt 0, (Some 100, Some 100))] < 2
   \<and> getInterpolatedSize [(PInt 0, (Some 100, Some 100))] 0 = Inl (Exit ''Could not interpolate'')
   \<and> well_formed example_table \<and> 2 \<le> length example_table
   \<and> getInterpolatedSize example_table 10 = Inr (200, 50)"
  using sizeAt_beyond_last [of example_table 11]
    sizeAt_beyond_last [of "[(PInt 0, (Some 100, Some 100))]" 0]
    example_table_increasing example_table_well_formed
  by (simp add: example_table_def time_of_def width_of_def height_of_def)

text \<open>The claim as stated fails at the time of the last keyframe: the example table at
  \<open>t = 10\<close> returns \<open>(200, 50)\<close>.\<close>

theorem sizeAt_at_last_counterexample:
  "time_of (last example_table) = 10
   \<and> getInterpolatedSize example_table 10 = Inr (200, 50)
   \<and> getInterpolatedSize example_table 10 \<noteq> Inl (Exit ''Could not interpolate'')"
  by (simp add: example_table_def time_of_def getInterpolatedSize_def interpolate_def py_int_def)

section \<open>Properties of the deduplication\<close>

lemma first_seen_snoc:
  "first_seen (xs @ [x]) = (if x \<in> set xs then first_seen xs else first_seen xs @ [x])"
  by (simp add: first_seen_def)

lemma first_seen_Nil: "first_seen [] = []"
  by (simp add: first_seen_def)

lemma set_first_seen: "set (first_seen xs) = set xs"
  by (simp add: first_seen_def)

lemma distinct_first_seen: "distinct (first_seen xs)"
  by (simp add: first_seen_def)

lemma length_first_seen_le: "length (first_seen xs) \<le> length xs"
  using length_remdups_leq [of "rev xs"] by (simp add: first_seen_def)

lemma length_first_seen_less: "\<not> distinct xs \<Longrightarrow> length (first_seen xs) < length xs"
proof -
  assume nd: "\<not> distinct xs"
  have "\<not> distinct (rev xs)" using nd by simp
  then have "length (remdups (rev xs)) \<noteq> length (rev xs)"
    unfolding length_remdups_eq by (simp add: distinct_remdups_id)
  then show ?thesis
    using length_remdups_leq [of "rev xs"] by (simp add: first_seen_def)
qed

lemma dedup_inv_init: "dedup_inv dedup_init []"
  by (simp add: dedup_inv_def dedup_init_def first_seen_Nil)

lemma dedup_inv_step:
  assumes inv: "dedup_inv st seen"
  shows "dedup_inv (dedup_step st x) (seen @ [x])"
proof (cases "imageDict st x")
  case None
  then have new: "x \<notin> set seen" using inv by (auto simp: dedup_inv_def)
  have len: "length (first_seen seen) = length (images st)"
    using inv by (auto simp: dedup_inv_def dest: arg_cong [where f = length])
  have notin: "\<And>k. k < length (images st) \<Longrightarrow> snd (images st ! k) \<noteq> x"
    using inv None by (auto simp: dedup_inv_def)
  show ?thesis
    using inv None new notin
    by (auto simp: dedup_inv_def dedup_step_def first_seen_snoc nth_append)
next
  case (Some c)
  then have old: "x \<in> set seen" using inv by (auto simp: dedup_inv_def)
  have "x \<in> set (map snd (images st))"
    using inv old by (simp add: dedup_inv_def set_first_seen)
  then obtain k where k: "k < length (images st)" "snd (images st ! k) = x"
    by (auto simp: in_set_conv_nth)
  then have "imageDict st x = Some k" using inv by (auto simp: dedup_inv_def)
  then have ck: "c = k" using Some by simp
  show ?thesis
    using inv Some old k ck
    by (auto simp: dedup_inv_def dedup_step_def first_seen_snoc nth_append insert_absorb)
qed

lemma dedup_inv_foldl:
  "dedup_inv st seen \<Longrightarrow> dedup_inv (foldl dedup_step st xs) (seen @ xs)"
proof (induction xs arbitrary: st seen)
  case Nil then show ?case by simp
next
  case (Cons x xs)
  from dedup_inv_step [OF Cons.prems, of x]
  have "dedup_inv (foldl dedup_step (dedup_step st x) xs) ((seen @ [x]) @ xs)"
    by (rule Cons.IH)
  then show ?case by simp
qed

lemma transparent_loop_plan:
  "collect (map (query info fps duration) is) = Inr szs \<Longrightarrow>
   transparent_loop info fps duration is st = (None, foldl dedup_step st szs)"
proof (induction "is" arbitrary: st szs)
  case Nil then show ?case by simp
next
  case (Cons i rest)
  then show ?case
    by (auto simp: query_def split: sum.splits)
qed

lemma transparent_loop_fails:
  "collect (map (query info fps duration) is) = Inl e \<Longrightarrow>
   fst (transparent_loop info fps duration is st) = Some e"
proof (induction "is" arbitrary: st)
  case Nil then show ?case by simp
next
  case (Cons i rest)
  then show ?case
    by (auto simp: query_def split: sum.splits)
qed

lemma py_max_Max: "xs \<noteq> [] \<Longrightarrow> py_max xs = Inr (Max (set xs))"
  by (cases xs) (simp_all add: Max.set_eq_fold [symmetric])

lemma makeTransparentImages_plan:
  assumes plan: "plan_sizes info fps duration count = Inr sizes"
  shows "\<exists>st. makeTransparentImages info count fps duration =
            (py_max (indexList st), st, map concat_line (indexList st))
          \<and> dedup_inv st sizes"
proof -
  define st where "st = foldl dedup_step dedup_init sizes"
  have "transparent_loop info fps duration [0..<nat count] dedup_init = (None, st)"
    using plan unfolding plan_sizes_def st_def by (rule transparent_loop_plan)
  then have "makeTransparentImages info count fps duration =
      (py_max (indexList st), st, map concat_line (indexList st))"
    by (simp add: makeTransparentImages_def)
  moreover have "dedup_inv st sizes"
    using dedup_inv_foldl [OF dedup_inv_init, of sizes] by (simp add: st_def)
  ultimately show ?thesis by blast
qed

lemma dedup_inv_resolves:
  assumes "dedup_inv st sizes"
  shows "map (\<lambda>c. snd (images st ! c)) (indexList st) = sizes"
    and "list_all (\<lambda>c. c < length (images st)) (indexList st)"
  using assms by (auto simp: dedup_inv_def list_all_length intro: nth_equalityI)

lemma dedup_inv_max:
  assumes inv: "dedup_inv st sizes" and ne: "sizes \<noteq> []"
  shows "Max (set (indexList st)) = length (images st) - 1"
proof (rule Max_eqI)
  show "finite (set (indexList st))" by simp
next
  fix c assume "c \<in> set (indexList st)"
  then have "c < length (images st)"
    using dedup_inv_resolves(2) [OF inv] by (simp add: list_all_iff)
  then show "c \<le> length (images st) - 1" by simp
next
  have len: "length (images st) = length (first_seen sizes)"
    using inv by (auto simp: dedup_inv_def dest: arg_cong [where f = length])
  have "first_seen sizes \<noteq> []" using ne set_first_seen [of sizes] by (metis set_empty)
  then have pos: "0 < length (images st)" using len by simp
  define x where "x = snd (images st ! (length (images st) - 1))"
  have "x \<in> set (map snd (images st))"
    using pos unfolding x_def by (metis diff_less in_set_conv_nth length_map nth_map zero_less_one)
  moreover have "set (map snd (images st)) = set sizes"
    using inv set_first_seen [of sizes] by (simp add: dedup_inv_def)
  ultimately have "x \<in> set sizes" by blast
  then obtain k where k: "k < length sizes" "sizes ! k = x" by (auto simp: in_set_conv_nth)
  then have c: "indexList st ! k < length (images st)" "snd (images st ! (indexList st ! k)) = x"
    using inv by (auto simp: dedup_inv_def)
  have d: "distinct (map snd (images st))" using inv by (simp add: dedup_inv_def distinct_first_seen)
  have "indexList st ! k = length (images st) - 1"
    using c pos d unfolding x_def
    by (metis diff_less distinct_conv_nth length_map nth_map zero_less_one)
  moreover have "k < length (indexList st)" using k inv by (simp add: dedup_inv_def)
  ultimately show "length (images st) - 1 \<in> set (indexList st)" by (metis nth_mem)
qed

lemma const_plan: "plan_sizes const_table 2 2 (frameCount 2 2 1) = Inr [(100,100),(100,100),(100,100),(100,100)]"
  by code_simp

lemma const_run:
  "(let r = makeTransparentImages const_table (frameCount 2 2 1) 2 2 in
    (fst r, index (fst (snd r)), indexList (fst (snd r)), images (fst (snd r))))
   = (Inr 0, 1, [0, 0, 0, 0], [(0, 100, 100)])"
  by code_simp

lemma empty_run:
  "fst (makeTransparentImages const_table (frameCount 0 2 1) 2 0) = Inl ValueError"
  by code_simp

section \<open>Properties of the concatenation list\<close>
















text \<open>
  Claim C3, as amended. For every planned size sequence that \<open>makeTransparentImages\<close>
  processes in index order: one image is saved per distinct size, in first-seen order, under
  the canonical indices 0, 1, 2, ...; \<open>indexList\<close> has the length of the plan and, with each
  canonical index resolved to the size of its image, reproduces the plan; a plan with a
  repeated size gets fewer canonical indices than it has entries. For a non-empty plan the
  function returns the maximum canonical index used, which is the last one allocated; for
  the empty plan it raises \<open>ValueError\<close>. The constant 100 x 100 table with duration 2,
  fps 2 and loop 1 gets exactly one canonical index, and \<open>indexList\<close> is \<open>[0, 0, 0, 0]\<close>.
\<close>

theorem dedup_first_seen_wins:
  assumes plan: "plan_sizes info fps duration count = Inr sizes"
  shows "(\<exists>ret st lines. makeTransparentImages info count fps duration = (ret, st, lines)
      \<and> map snd (images st) = first_seen sizes
      \<and> map fst (images st) = [0..<length (images st)]
      \<and> index st = length (images st)
      \<and> length (indexList st) = length sizes
      \<and> list_all (\<lambda>c. c < length (images st)) (indexList st)
      \<and> map (\<lambda>c. snd (images st ! c)) (indexList st) = sizes
      \<and> (sizes \<noteq> [] \<longrightarrow> ret = Inr (Max (set (indexList st)))
            \<and> Max (set (indexList st)) = length (images st) - 1)
      \<and> (sizes = [] \<longrightarrow> ret = Inl ValueError)
      \<and> (\<not> distinct sizes \<longrightarrow> length (images st) < length sizes))
    \<and> (let r = makeTransparentImages const_table (frameCount 2 2 1) 2 2 in
         (fst r, index (fst (snd r)), indexList (fst (snd r)), images (fst (snd r))))
       = (Inr 0, 1, [0, 0, 0, 0], [(0, 100, 100)])"
proof
  obtain st where run: "makeTransparentImages info count fps duration =
            (py_max (indexList st), st, map concat_line (indexList st))"
    and inv: "dedup_inv st sizes"
    using makeTransparentImages_plan [OF plan] by blast
  have len: "length (indexList st) = length sizes" using inv by (simp add: dedup_inv_def)
  have imgs: "length (images st) = length (first_seen sizes)"
    using inv by (auto simp: dedup_inv_def dest: arg_cong [where f = length])
  have a: "sizes \<noteq> [] \<longrightarrow> py_max (indexList st) = Inr (Max (set (indexList st)))
            \<and> Max (set (indexList st)) = length (images st) - 1"
  proof
    assume ne: "sizes \<noteq> []"
    then have "indexList st \<noteq> []" using len by auto
    then show "py_max (indexList st) = Inr (Max (set (indexList st)))
            \<and> Max (set (indexList st)) = length (images st) - 1"
      using py_max_Max [of "indexList st"] dedup_inv_max [OF inv ne] by blast
  qed
  have b: "sizes = [] \<longrightarrow> py_max (indexList st) = Inl ValueError"
    using len by auto
  have c: "\<not> distinct sizes \<longrightarrow> length (images st) < length sizes"
    using length_first_seen_less [of sizes] imgs by simp
  show "\<exists>ret st lines. makeTransparentImages info count fps duration = (ret, st, lines)
      \<and> map snd (images st) = first_seen sizes
      \<and> map fst (images st) = [0..<length (images st)]
      \<and> index st = length (images st)
      \<and> length (indexList st) = length sizes
      \<and> list_all (\<lambda>c. c < length (images st)) (indexList st)
      \<and> map (\<lambda>c. snd (images st ! c)) (indexList st) = sizes
      \<and> (sizes \<noteq> [] \<longrightarrow> ret = Inr (Max (set (indexList st)))
            \<and> Max (set (indexList st)) = length (images st) - 1)
      \<and> (sizes = [] \<longrightarrow> ret = Inl ValueError)
      \<and> (\<not> distinct sizes \<longrightarrow> length (images st) < length sizes)"
    using run inv len a b c dedup_inv_resolves [OF inv]
    by (simp add: dedup_inv_def)
next
  show "(let r = makeTransparentImages const_table (frameCount 2 2 1) 2 2 in
         (fst r, index (fst (snd r)), indexList (fst (snd r)), images (fst (snd r))))
       = (Inr 0, 1, [0, 0, 0, 0], [(0, 100, 100)])"
    by (rule const_run)
qed

lemma zigzag_plan:
  "plan_sizes zigzag_table 1 4 4 = Inr [(100, 100), (200, 200), (100, 100), (300, 300)]"
  by code_simp

lemma empty_plan: "plan_sizes const_table 2 0 (frameCount 0 2 1) = Inr []"
  by code_simp

theorem dedup_first_seen_wins_witness:
  "plan_sizes zigzag_table 1 4 4 = Inr [(100, 100), (200, 200), (100, 100), (300, 300)]
   \<and> [(100, 100), (200, 200), (100, 100), (300, 300)] \<noteq> ([] :: (int \<times> int) list)
   \<and> \<not> distinct [(100, 100), (200, 200), (100, 100), (300, 300) :: int \<times> int]
   \<and> (\<exists>st lines. makeTransparentImages zigzag_table 4 1 4 = (Inr (Max (set (indexList st))), st, lines)
        \<and> length (indexList st) = 4 \<and> length (images st) < 4
        \<and> map (\<lambda>c. snd (images st ! c)) (indexList st) = [(100, 100), (200, 200), (100, 100), (300, 300)])
   \<and> plan_sizes const_table 2 0 (frameCount 0 2 1) = Inr []
   \<and> fst (makeTransparentImages const_table (frameCount 0 2 1) 2 0) = Inl ValueError"
proof -
  have nd: "\<not> distinct [(100, 100), (200, 200), (100, 100), (300, 300) :: int \<times> int]" by simp
  from dedup_first_seen_wins [OF zigzag_plan] nd
  have "\<exists>st lines. makeTransparentImages zigzag_table 4 1 4 = (Inr (Max (set (indexList st))), st, lines)
        \<and> length (indexList st) = 4 \<and> length (images st) < 4
        \<and> map (\<lambda>c. snd (images st ! c)) (indexList st) = [(100, 100), (200, 200), (100, 100), (300, 300)]"
    by auto
  moreover from dedup_first_seen_wins [OF empty_plan]
  have "fst (makeTransparentImages const_table (frameCount 0 2 1) 2 0) = Inl ValueError"
    by auto
  ultimately show ?thesis using zigzag_plan empty_plan nd by simp
qed

text \<open>The claim as stated fails on the empty plan (duration 0): nothing is returned.\<close>

theorem dedup_empty_plan_counterexample:
  "plan_sizes const_table 2 0 (frameCount 0 2 1) = Inr []
   \<and> fst (makeTransparentImages const_table (frameCount 0 2 1) 2 0) = Inl ValueError"
  by (simp add: empty_plan empty_run)



section \<open>Properties of the output path and of the encode commands\<close>

lemma take_eq_length: "take (length old) s = old \<Longrightarrow> length old \<le> length s"
proof -
  assume "take (length old) s = old"
  then have "length (take (length old) s) = length old" by simp
  then show ?thesis by (simp add: min_def split: if_splits)
qed

lemma contains_iff: "contains sub s \<longleftrightarrow> (\<exists>i \<le> length s. take (length sub) (drop i s) = sub)"
proof -
  have "contains sub s \<longleftrightarrow> (\<exists>i \<in> set [0..<Suc (length s)]. take (length sub) (drop i s) = sub)"
    by (simp add: contains_def list_ex_iff del: upt_Suc)
  also have "\<dots> \<longleftrightarrow> (\<exists>i \<le> length s. take (length sub) (drop i s) = sub)"
    unfolding set_upt by (auto simp: less_Suc_eq_le)
  finally show ?thesis .
qed

lemma contains_Cons: "contains sub cs \<Longrightarrow> contains sub (c # cs)"
  unfolding contains_iff
proof -
  assume "\<exists>i\<le>length cs. take (length sub) (drop i cs) = sub"
  then obtain i where "i \<le> length cs" "take (length sub) (drop i cs) = sub" by blast
  then have "Suc i \<le> length (c # cs) \<and> take (length sub) (drop (Suc i) (c # cs)) = sub" by simp
  then show "\<exists>i\<le>length (c # cs). take (length sub) (drop i (c # cs)) = sub" by blast
qed

lemma contains_prefix: "take (length sub) s = sub \<Longrightarrow> contains sub s"
  unfolding contains_iff by (rule exI [of _ 0]) simp

lemma replace_ne_absent: "\<not> contains old s \<Longrightarrow> replace_ne old new s = s"
proof (induction old new s rule: replace_ne.induct)
  case (1 old new)
  then show ?case by simp
next
  case (2 old new c cs)
  have np: "take (length old) (c # cs) \<noteq> old"
    using "2.prems" contains_prefix by blast
  have "\<not> contains old cs" using "2.prems" contains_Cons by blast
  then show ?case using "2.IH"(2) np by simp
qed

lemma replace_ne_length:
  "length old < length new \<Longrightarrow> length s \<le> length (replace_ne old new s)"
proof (induction old new s rule: replace_ne.induct)
  case (1 old new)
  then show ?case by simp
next
  case (2 old new c cs)
  show ?case
  proof (cases "old \<noteq> [] \<and> take (length old) (c # cs) = old")
    case True
    then have "length old \<le> length (c # cs)"
      using take_eq_length by blast
    moreover have "length (drop (length old) (c # cs)) \<le> length (replace_ne old new (drop (length old) (c # cs)))"
      using "2.IH"(1) True "2.prems" by blast
    ultimately show ?thesis using True "2.prems" by simp
  next
    case False
    then show ?thesis using "2.IH"(2) "2.prems" by auto
  qed
qed

lemma replace_ne_present:
  "length old < length new \<Longrightarrow> old \<noteq> [] \<Longrightarrow> contains old s \<Longrightarrow> length s < length (replace_ne old new s)"
proof (induction old new s rule: replace_ne.induct)
  case (1 old new)
  then show ?case by (simp add: contains_iff)
next
  case (2 old new c cs)
  show ?case
  proof (cases "take (length old) (c # cs) = old")
    case True
    then have "length old \<le> length (c # cs)"
      using take_eq_length by blast
    moreover have "length (drop (length old) (c # cs)) \<le> length (replace_ne old new (drop (length old) (c # cs)))"
      using replace_ne_length "2.prems"(1) by blast
    ultimately show ?thesis using True "2.prems" by simp
  next
    case False
    have "contains old cs"
    proof -
      from "2.prems"(3) obtain i where i: "i \<le> length (c # cs)" "take (length old) (drop i (c # cs)) = old"
        unfolding contains_iff by blast
      with False obtain j where "i = Suc j" by (cases i) auto
      with i show ?thesis unfolding contains_iff by auto
    qed
    then show ?thesis using "2.IH"(2) False "2.prems" by auto
  qed
qed

lemma replace_ne_skip:
  "take (length old) (c # rest) \<noteq> old \<Longrightarrow>
   replace_ne old new (c # rest) = c # replace_ne old new rest"
  by simp

lemma take_append_long: "length a \<le> length xs \<Longrightarrow> take (length a) (xs @ ys) = take (length a) xs"
  by simp

lemma no_straddle:
  assumes "\<not> contains ''.mp4'' (c # cs)"
  shows "take (length ''.mp4'') ((c # cs) @ ''.mp4'') \<noteq> ''.mp4''"
proof (cases "length ''.mp4'' \<le> length (c # cs)")
  case True
  then have "take (length ''.mp4'') ((c # cs) @ ''.mp4'') = take (length ''.mp4'') (c # cs)"
    by (rule take_append_long)
  moreover have "take (length ''.mp4'') (c # cs) \<noteq> ''.mp4''"
    using assms contains_prefix by blast
  ultimately show ?thesis by metis
next
  case False
  then consider "cs = []" | x where "cs = [x]" | x y where "cs = [x, y]"
    by (cases cs; cases "tl cs"; cases "tl (tl cs)") auto
  then show ?thesis by cases auto
qed

lemma replace_mp4_suffix:
  "\<not> contains ''.mp4'' base \<Longrightarrow>
   replace_ne ''.mp4'' ''_resized.webm'' (base @ ''.mp4'') = base @ ''_resized.webm''"
proof (induction base)
  case Nil
  then show ?case by simp
next
  case (Cons c cs)
  have ns: "take (length ''.mp4'') (c # (cs @ ''.mp4'')) \<noteq> ''.mp4''"
    using no_straddle [OF Cons.prems] unfolding append_Cons .
  have "\<not> contains ''.mp4'' cs" using Cons.prems contains_Cons by blast
  then have ih: "replace_ne ''.mp4'' ''_resized.webm'' (cs @ ''.mp4'') = cs @ ''_resized.webm''"
    by (rule Cons.IH)
  have "replace_ne ''.mp4'' ''_resized.webm'' ((c # cs) @ ''.mp4'') =
          c # replace_ne ''.mp4'' ''_resized.webm'' (cs @ ''.mp4'')"
    unfolding append_Cons by (rule replace_ne_skip [OF ns])
  then show ?case unfolding ih by (simp only: append_Cons)
qed

text \<open>
  Claim C10. For every input path that does not contain \<open>.mp4\<close>, \<open>getOutput\<close> returns the
  path unchanged, so the mux command of \<open>setAudio\<close> names the input path itself as its
  output file; every path that contains \<open>.mp4\<close> is changed, and a path \<open>base.mp4\<close> with no
  other \<open>.mp4\<close> in it becomes \<open>base_resized.webm\<close>.
\<close>

theorem getOutput_unchanged_without_mp4:
  "(\<not> contains ''.mp4'' video \<longrightarrow>
      getOutput video = video
      \<and> setAudio video = executeRawFfmpegCommad
           (''-i temp/out.webm -i temp/audio.wav -map 0:V:0 -map 1:a:0 -c:v copy -c:a libopus -b:a 160k -f webm ''
            @ video))
   \<and> (getOutput video \<noteq> video \<longleftrightarrow> contains ''.mp4'' video)
   \<and> (\<not> contains ''.mp4'' base \<longrightarrow> getOutput (base @ ''.mp4'') = base @ ''_resized.webm'')
   \<and> getOutput ''clip.webm'' = ''clip.webm''
   \<and> getOutput ''video.mp4'' = ''video_resized.webm''"
proof -
  have unchanged: "\<not> contains ''.mp4'' video \<longrightarrow>
      getOutput video = video
      \<and> setAudio video = executeRawFfmpegCommad
           (''-i temp/out.webm -i temp/audio.wav -map 0:V:0 -map 1:a:0 -c:v copy -c:a libopus -b:a 160k -f webm ''
            @ video)"
  proof
    assume "\<not> contains ''.mp4'' video"
    then have "getOutput video = video"
      by (simp add: getOutput_def str_replace_def replace_ne_absent)
    then show "getOutput video = video
      \<and> setAudio video = executeRawFfmpegCommad
           (''-i temp/out.webm -i temp/audio.wav -map 0:V:0 -map 1:a:0 -c:v copy -c:a libopus -b:a 160k -f webm ''
            @ video)"
      by (simp add: setAudio_def)
  qed
  have changed: "getOutput video \<noteq> video \<longleftrightarrow> contains ''.mp4'' video"
  proof
    assume "getOutput video \<noteq> video"
    then show "contains ''.mp4'' video"
      using replace_ne_absent [of "''.mp4''" video "''_resized.webm''"]
      by (auto simp: getOutput_def str_replace_def)
  next
    assume "contains ''.mp4'' video"
    then have "length video < length (getOutput video)"
      using replace_ne_present [of "''.mp4''" "''_resized.webm''" video]
      by (simp add: getOutput_def str_replace_def)
    then show "getOutput video \<noteq> video" by auto
  qed
  have suffix: "\<not> contains ''.mp4'' base \<longrightarrow> getOutput (base @ ''.mp4'') = base @ ''_resized.webm''"
    using replace_mp4_suffix by (simp add: getOutput_def str_replace_def)
  have e1: "getOutput ''clip.webm'' = ''clip.webm''" by code_simp
  have e2: "getOutput ''video.mp4'' = ''video_resized.webm''" by code_simp
  show ?thesis using unchanged changed suffix e1 e2 by (intro conjI)
qed

lemma clip_no_mp4: "\<not> contains ''.mp4'' ''clip.webm''"
  by code_simp

lemma video_no_mp4: "\<not> contains ''.mp4'' ''video''"
  by code_simp

theorem getOutput_unchanged_without_mp4_witness:
  "\<not> contains ''.mp4'' ''clip.webm''
   \<and> getOutput ''clip.webm'' = ''clip.webm''
   \<and> setAudio ''clip.webm'' =
       ''ffmpeg -hide_banner -loglevel error -i temp/out.webm -i temp/audio.wav -map 0:V:0 -map 1:a:0 -c:v copy -c:a libopus -b:a 160k -f webm clip.webm''
   \<and> \<not> contains ''.mp4'' ''video''
   \<and> getOutput (''video'' @ ''.mp4'') = ''video'' @ ''_resized.webm''"
  using getOutput_unchanged_without_mp4 [of "''clip.webm''" "''video''"] clip_no_mp4 video_no_mp4
  by (simp add: executeRawFfmpegCommad_def)

lemma getOutput_inner_mp4: "getOutput ''a.mp4.webm'' = ''a_resized.webm.webm''"
  by code_simp

text \<open>
  Claim C7 is not what the code does. In transparent mode the sequential encoder passes
  \<open>-pix_fmt yuva420p\<close> to the external encoder for frame 0 at 30 fps; the parallel
  encoder's command for the same frame has no pixel format.
\<close>

theorem parallel_encode_drops_pix_fmt:
  "fst (createWebms float_repr (PInt 30) 0 False) =
     [''ffmpeg -hide_banner -loglevel error -framerate 30 -f image2 -i temp/frame-0.png -c:v libvpx-vp9 -pix_fmt yuva420p temp/frame-0.webm'']
   \<and> fst (createWebmsFast float_repr [0] (PInt 30) 0 False) =
     [''ffmpeg -hide_banner -loglevel error -framerate 30 -f image2 -i temp/frame-0.png -c:v libvpx-vp9 temp/frame-0.webm'']"
  by (simp add: createWebms_def createWebmsFast_def processSingleWebm_def executeRawFfmpegCommad_def
      str_int_def str_nat.simps [of 0] str_nat.simps [of 30] str_nat.simps [of 3] digit_char_def)

section \<open>Properties of reading the instructions\<close>

lemma read_loop_append:
  "read_loop py w h d (pre @ rest) info =
     (case read_loop py w h d pre info of Inl e \<Rightarrow> Inl e | Inr info' \<Rightarrow> read_loop py w h d rest info')"
  by (induction pre arbitrary: info) (auto simp: Let_def split: option.splits)

lemma readInstructions_at:
  assumes "read_loop py w h d pre [] = Inr info0"
  shows "readInstructions py w h d (Some \<lparr>keyframes = Some (pre @ k # post)\<rparr>) =
           read_loop py w h d (k # post) info0"
  using assms by (simp add: readInstructions_def read_loop_append)

lemma isdigit_minus: "CHR ''-'' \<in> set s \<Longrightarrow> \<not> isdigit (remove1 (CHR ''.'') s)"
proof -
  assume "CHR ''-'' \<in> set s"
  then have "CHR ''-'' \<in> set (remove1 (CHR ''.'') s)" by simp
  moreover have "CHR ''-'' \<notin> set ''0123456789''" by simp
  ultimately show ?thesis unfolding isdigit_def list_all_iff by blast
qed

lemma negative_int_rejected: "n < 0 \<Longrightarrow> \<not> time_accepted py (resolve_time d (PInt n))"
  by (simp add: time_accepted_def resolve_time_def str_int_def isdigit_def)

lemma none_rejected: "\<not> time_accepted py (resolve_time d PNone)"
  by (simp add: time_accepted_def resolve_time_def isdigit_def)

lemma bool_rejected: "\<not> time_accepted py (resolve_time d (PBool b))"
  by (simp add: time_accepted_def resolve_time_def isdigit_def)

lemma minus_float_rejected:
  "CHR ''-'' \<in> set (repr_of_float py r) \<Longrightarrow> \<not> time_accepted py (resolve_time d (PFloat r))"
  by (simp add: time_accepted_def resolve_time_def isdigit_minus)

lemma if_scale_set:
  "if_scale py w h sz d = Some d' \<Longrightarrow>
   (fst d' \<noteq> None \<longleftrightarrow> fst d \<noteq> None \<or> map_of sz ''scale'' \<noteq> None)
   \<and> (snd d' \<noteq> None \<longleftrightarrow> snd d \<noteq> None \<or> map_of sz ''scale'' \<noteq> None)"
  by (auto simp: if_scale_def split: option.splits)

lemma if_wScale_set:
  "if_wScale py w sz d = Some d' \<Longrightarrow>
   (fst d' \<noteq> None \<longleftrightarrow> fst d \<noteq> None \<or> map_of sz ''wScale'' \<noteq> None)
   \<and> (snd d' \<noteq> None \<longleftrightarrow> snd d \<noteq> None)"
  by (auto simp: if_wScale_def split: option.splits)

lemma if_hScale_set:
  "if_hScale py h sz d = Some d' \<Longrightarrow>
   (fst d' \<noteq> None \<longleftrightarrow> fst d \<noteq> None)
   \<and> (snd d' \<noteq> None \<longleftrightarrow> snd d \<noteq> None \<or> map_of sz ''hScale'' \<noteq> None)"
  by (auto simp: if_hScale_def split: option.splits)

lemma if_width_set:
  "if_width py sz d = Some d' \<Longrightarrow>
   (fst d' \<noteq> None \<longleftrightarrow> fst d \<noteq> None \<or> map_of sz ''width'' \<noteq> None)
   \<and> (snd d' \<noteq> None \<longleftrightarrow> snd d \<noteq> None)"
  by (auto simp: if_width_def split: option.splits)

lemma if_height_set:
  "if_height py sz d = Some d' \<Longrightarrow>
   (fst d' \<noteq> None \<longleftrightarrow> fst d \<noteq> None)
   \<and> (snd d' \<noteq> None \<longleftrightarrow> snd d \<noteq> None \<or> map_of sz ''height'' \<noteq> None)"
  by (auto simp: if_height_def split: option.splits)

lemma resolve_size_set:
  assumes "resolve_size py w h sz = Some d"
  shows "(fst d \<noteq> None \<longleftrightarrow>
            map_of sz ''scale'' \<noteq> None \<or> map_of sz ''wScale'' \<noteq> None \<or> map_of sz ''width'' \<noteq> None)
       \<and> (snd d \<noteq> None \<longleftrightarrow>
            map_of sz ''scale'' \<noteq> None \<or> map_of sz ''hScale'' \<noteq> None \<or> map_of sz ''height'' \<noteq> None)"
proof -
  from assms obtain d1 d2 d3 d4 where
    s1: "if_scale py w h sz (None, None) = Some d1" and s2: "if_wScale py w sz d1 = Some d2"
    and s3: "if_hScale py h sz d2 = Some d3" and s4: "if_width py sz d3 = Some d4"
    and s5: "if_height py sz d4 = Some d"
    unfolding resolve_size_def by (auto simp: bind_eq_Some_conv)
  have a: "fst d1 \<noteq> None \<longleftrightarrow> map_of sz ''scale'' \<noteq> None"
    and b: "snd d1 \<noteq> None \<longleftrightarrow> map_of sz ''scale'' \<noteq> None"
    using if_scale_set [OF s1] by simp_all
  have c: "fst d2 \<noteq> None \<longleftrightarrow> map_of sz ''scale'' \<noteq> None \<or> map_of sz ''wScale'' \<noteq> None"
    and e: "snd d2 \<noteq> None \<longleftrightarrow> map_of sz ''scale'' \<noteq> None"
    using if_wScale_set [OF s2] a b by simp_all
  have f: "fst d3 \<noteq> None \<longleftrightarrow> map_of sz ''scale'' \<noteq> None \<or> map_of sz ''wScale'' \<noteq> None"
    and g: "snd d3 \<noteq> None \<longleftrightarrow> map_of sz ''scale'' \<noteq> None \<or> map_of sz ''hScale'' \<noteq> None"
    using if_hScale_set [OF s3] c e by simp_all
  have i: "fst d4 \<noteq> None \<longleftrightarrow>
        map_of sz ''scale'' \<noteq> None \<or> map_of sz ''wScale'' \<noteq> None \<or> map_of sz ''width'' \<noteq> None"
    and j: "snd d4 \<noteq> None \<longleftrightarrow> map_of sz ''scale'' \<noteq> None \<or> map_of sz ''hScale'' \<noteq> None"
    using if_width_set [OF s4] f g by simp_all
  show ?thesis
    using if_height_set [OF s5] i j by simp
qed

lemma dict_set_values: "set (map snd (dict_set info k v)) \<subseteq> insert v (set (map snd info))"
proof (induction info)
  case Nil
  then show ?case by simp
next
  case (Cons a info)
  obtain k' v' where a: "a = (k', v')" by (cases a)
  show ?case
  proof (cases "key_eq k' k")
    case True
    then show ?thesis by (auto simp: a)
  next
    case False
    have "set (map snd (dict_set (a # info) k v)) = insert v' (set (map snd (dict_set info k v)))"
      using False by (simp add: a)
    then show ?thesis using Cons.IH by (auto simp: a)
  qed
qed

lemma read_loop_values:
  "read_loop py w h d kfs info = Inr info' \<Longrightarrow> e \<in> set info' \<Longrightarrow>
   snd e \<in> set (map snd info)
   \<or> (\<exists>k sz. k \<in> set kfs \<and> kf_size k = Some sz \<and> resolve_size py w h sz = Some (snd e))"
proof (induction kfs arbitrary: info)
  case Nil
  then show ?case by auto
next
  case (Cons k rest)
  from Cons.prems(1) obtain t sz dd where
    t: "kf_time k = Some t" and sz: "kf_size k = Some sz"
    and dd: "resolve_size py w h sz = Some dd"
    and run: "read_loop py w h d rest (dict_set info (resolve_time d t) dd) = Inr info'"
    by (auto simp: Let_def split: option.splits if_splits)
  from Cons.IH [OF run Cons.prems(2)] show ?case
  proof
    assume "snd e \<in> set (map snd (dict_set info (resolve_time d t) dd))"
    then have "snd e = dd \<or> snd e \<in> set (map snd info)"
      using dict_set_values [of info "resolve_time d t" dd] by auto
    then show ?thesis using sz dd by auto
  next
    assume "\<exists>k sz. k \<in> set rest \<and> kf_size k = Some sz \<and> resolve_size py w h sz = Some (snd e)"
    then show ?thesis by auto
  qed
qed

lemma readInstructions_values:
  assumes "readInstructions py w h d file = Inr info" and "e \<in> set info"
  shows "\<exists>kfs k sz. file = Some \<lparr>keyframes = Some kfs\<rparr> \<and> k \<in> set kfs \<and> kf_size k = Some sz
           \<and> resolve_size py w h sz = Some (snd e)"
proof -
  from assms(1) obtain ins kfs where f: "file = Some ins" "keyframes ins = Some kfs"
    and run: "read_loop py w h d kfs [] = Inr info"
    by (auto simp: readInstructions_def split: option.splits)
  have "ins = \<lparr>keyframes = Some kfs\<rparr>" using f(2) by (cases ins) simp
  then have file_eq: "file = Some \<lparr>keyframes = Some kfs\<rparr>" using f(1) by simp
  from read_loop_values [OF run assms(2)]
  have "\<exists>k sz. k \<in> set kfs \<and> kf_size k = Some sz \<and> resolve_size py w h sz = Some (snd e)"
    by simp
  then show ?thesis using file_eq by blast
qed

text \<open>
  Claim C5, as amended. Building the table exits with a diagnostic when the instruction file
  is absent (\<open>No instruction!\<close>) or has no \<open>keyframes\<close> (\<open>No keyframe data\<close>), and, at a
  keyframe that the loop reaches (all keyframes before it were accepted), when the keyframe
  has no \<open>time\<close> (\<open>No time for keyframe\<close>), when the time, with \<open>end\<close> replaced by the
  duration, does not print as digits with at most one dot (\<open>invalid time\<close>: every negative
  integer, \<open>None\<close>, a boolean, every float printed with a minus sign), or when a size value
  cannot be converted to a number (\<open>Invalid size for keyframe\<close>). A size specification that
  names no key for a dimension is accepted: in every table that is returned, each stored
  keyframe has its width set exactly when its size has \<open>scale\<close>, \<open>wScale\<close> or \<open>width\<close>, and its
  height set exactly when it has \<open>scale\<close>, \<open>hScale\<close> or \<open>height\<close>. (A keyframe without a
  \<open>size\<close> field is not part of this statement.)
\<close>

theorem readInstructions_diagnostics:
  "readInstructions py w h d None = Inl (Exit ''No instruction!'')
   \<and> readInstructions py w h d (Some \<lparr>keyframes = None\<rparr>) = Inl (Exit ''No keyframe data'')
   \<and> (read_loop py w h d pre [] = Inr info0 \<and> kf_time k = None \<longrightarrow>
        readInstructions py w h d (Some \<lparr>keyframes = Some (pre @ k # post)\<rparr>)
          = Inl (Exit ''No time for keyframe''))
   \<and> (read_loop py w h d pre [] = Inr info0 \<and> kf_time k = Some t
        \<and> \<not> time_accepted py (resolve_time d t) \<longrightarrow>
        readInstructions py w h d (Some \<lparr>keyframes = Some (pre @ k # post)\<rparr>)
          = Inl (Exit ''invalid time''))
   \<and> (n < 0 \<longrightarrow> \<not> time_accepted py (resolve_time d (PInt n)))
   \<and> \<not> time_accepted py (resolve_time d PNone)
   \<and> \<not> time_accepted py (resolve_time d (PBool b))
   \<and> (CHR ''-'' \<in> set (repr_of_float py r) \<longrightarrow> \<not> time_accepted py (resolve_time d (PFloat r)))
   \<and> (read_loop py w h d pre [] = Inr info0 \<and> kf_time k = Some t
        \<and> time_accepted py (resolve_time d t) \<and> kf_size k = Some sz
        \<and> resolve_size py w h sz = None \<longrightarrow>
        readInstructions py w h d (Some \<lparr>keyframes = Some (pre @ k # post)\<rparr>)
          = Inl (Exit ''Invalid size for keyframe''))
   \<and> (readInstructions py w h d file = Inr info \<and> e \<in> set info \<longrightarrow>
        (\<exists>kfs k' sz'. file = Some \<lparr>keyframes = Some kfs\<rparr> \<and> k' \<in> set kfs
           \<and> kf_size k' = Some sz' \<and> resolve_size py w h sz' = Some (snd e)
           \<and> (fst (snd e) \<noteq> None \<longleftrightarrow>
                 map_of sz' ''scale'' \<noteq> None \<or> map_of sz' ''wScale'' \<noteq> None
                 \<or> map_of sz' ''width'' \<noteq> None)
           \<and> (snd (snd e) \<noteq> None \<longleftrightarrow>
                 map_of sz' ''scale'' \<noteq> None \<or> map_of sz' ''hScale'' \<noteq> None
                 \<or> map_of sz' ''height'' \<noteq> None)))"
proof -
  have c1: "readInstructions py w h d None = Inl (Exit ''No instruction!'')"
    by (simp add: readInstructions_def)
  have c2: "readInstructions py w h d (Some \<lparr>keyframes = None\<rparr>) = Inl (Exit ''No keyframe data'')"
    by (simp add: readInstructions_def)
  have c3: "read_loop py w h d pre [] = Inr info0 \<and> kf_time k = None \<longrightarrow>
        readInstructions py w h d (Some \<lparr>keyframes = Some (pre @ k # post)\<rparr>)
          = Inl (Exit ''No time for keyframe'')"
    by (auto simp: readInstructions_at)
  have c4: "read_loop py w h d pre [] = Inr info0 \<and> kf_time k = Some t
        \<and> \<not> time_accepted py (resolve_time d t) \<longrightarrow>
        readInstructions py w h d (Some \<lparr>keyframes = Some (pre @ k # post)\<rparr>)
          = Inl (Exit ''invalid time'')"
    by (auto simp: readInstructions_at)
  have c5: "n < 0 \<longrightarrow> \<not> time_accepted py (resolve_time d (PInt n))"
    using negative_int_rejected by blast
  have c6: "\<not> time_accepted py (resolve_time d PNone)" by (rule none_rejected)
  have c7: "\<not> time_accepted py (resolve_time d (PBool b))" by (rule bool_rejected)
  have c8: "CHR ''-'' \<in> set (repr_of_float py r) \<longrightarrow> \<not> time_accepted py (resolve_time d (PFloat r))"
    using minus_float_rejected by blast
  have c9: "read_loop py w h d pre [] = Inr info0 \<and> kf_time k = Some t
        \<and> time_accepted py (resolve_time d t) \<and> kf_size k = Some sz
        \<and> resolve_size py w h sz = None \<longrightarrow>
        readInstructions py w h d (Some \<lparr>keyframes = Some (pre @ k # post)\<rparr>)
          = Inl (Exit ''Invalid size for keyframe'')"
    by (auto simp: readInstructions_at)
  have c10: "readInstructions py w h d file = Inr info \<and> e \<in> set info \<longrightarrow>
        (\<exists>kfs k' sz'. file = Some \<lparr>keyframes = Some kfs\<rparr> \<and> k' \<in> set kfs
           \<and> kf_size k' = Some sz' \<and> resolve_size py w h sz' = Some (snd e)
           \<and> (fst (snd e) \<noteq> None \<longleftrightarrow>
                 map_of sz' ''scale'' \<noteq> None \<or> map_of sz' ''wScale'' \<noteq> None
                 \<or> map_of sz' ''width'' \<noteq> None)
           \<and> (snd (snd e) \<noteq> None \<longleftrightarrow>
                 map_of sz' ''scale'' \<noteq> None \<or> map_of sz' ''hScale'' \<noteq> None
                 \<or> map_of sz' ''height'' \<noteq> None))"
  proof
    assume a: "readInstructions py w h d file = Inr info \<and> e \<in> set info"
    then obtain kfs k' sz' where f: "file = Some \<lparr>keyframes = Some kfs\<rparr>" "k' \<in> set kfs"
      "kf_size k' = Some sz'" "resolve_size py w h sz' = Some (snd e)"
      using readInstructions_values by blast
    from resolve_size_set [OF f(4)] f show "\<exists>kfs k' sz'. file = Some \<lparr>keyframes = Some kfs\<rparr> \<and> k' \<in> set kfs
           \<and> kf_size k' = Some sz' \<and> resolve_size py w h sz' = Some (snd e)
           \<and> (fst (snd e) \<noteq> None \<longleftrightarrow>
                 map_of sz' ''scale'' \<noteq> None \<or> map_of sz' ''wScale'' \<noteq> None
                 \<or> map_of sz' ''width'' \<noteq> None)
           \<and> (snd (snd e) \<noteq> None \<longleftrightarrow>
                 map_of sz' ''scale'' \<noteq> None \<or> map_of sz' ''hScale'' \<noteq> None
                 \<or> map_of sz' ''height'' \<noteq> None)"
      by blast
  qed
  show ?thesis using c1 c2 c3 c4 c5 c6 c7 c8 c9 c10 by (intro conjI)
qed

lemma two_keyframes_read:
  "read_loop example_builtins 500 500 10 two_keyframes [] =
     Inr [(PInt 0, Some 100, Some 100), (PFloat 10, Some 200, Some 50)]"
  by code_simp

lemma width_only_read:
  "readInstructions example_builtins 500 500 10
     (Some \<lparr>keyframes = Some [kf (PInt 0) [(''width'', PInt 100)]]\<rparr>)
   = Inr [(PInt 0, Some 100, None)]"
  by code_simp

lemma missing_size_raises:
  "readInstructions example_builtins 500 500 10
     (Some \<lparr>keyframes = Some [\<lparr>kf_time = Some (PInt 0), kf_size = None\<rparr>]\<rparr>)
   = Inl KeyError"
  by code_simp

theorem readInstructions_diagnostics_witness:
  "read_loop example_builtins 500 500 10 two_keyframes [] =
     Inr [(PInt 0, Some 100, Some 100), (PFloat 10, Some 200, Some 50)]
   \<and> readInstructions example_builtins 500 500 10
        (Some \<lparr>keyframes = Some (two_keyframes @ \<lparr>kf_time = None, kf_size = Some []\<rparr> # [])\<rparr>)
       = Inl (Exit ''No time for keyframe'')
   \<and> readInstructions example_builtins 500 500 10
        (Some \<lparr>keyframes = Some (two_keyframes @ kf (PInt (- 3)) [] # [])\<rparr>)
       = Inl (Exit ''invalid time'')
   \<and> readInstructions example_builtins 500 500 10
        (Some \<lparr>keyframes = Some (two_keyframes @ kf (PInt 20) [(''scale'', PStr ''big'')] # [])\<rparr>)
       = Inl (Exit ''Invalid size for keyframe'')
   \<and> readInstructions example_builtins 500 500 10
        (Some \<lparr>keyframes = Some [kf (PInt 0) [(''width'', PInt 100)]]\<rparr>)
       = Inr [(PInt 0, Some 100, None)]
   \<and> (\<exists>sz'. resolve_size example_builtins 500 500 sz' = Some (Some 100, None)
          \<and> map_of sz' ''height'' = None)"
proof -
  have neg: "(- 3 :: int) < 0" by simp
  have t1: "kf_time \<lparr>kf_time = None, kf_size = Some []\<rparr> = None" by simp
  have w1: "readInstructions example_builtins 500 500 10
        (Some \<lparr>keyframes = Some (two_keyframes @ \<lparr>kf_time = None, kf_size = Some []\<rparr> # [])\<rparr>)
       = Inl (Exit ''No time for keyframe'')"
    using readInstructions_diagnostics [of example_builtins 500 500 10 two_keyframes
        "[(PInt 0, Some 100, Some 100), (PFloat 10, Some 200, Some 50)]"
        "\<lparr>kf_time = None, kf_size = Some []\<rparr>" "[]"]
      two_keyframes_read t1 by blast
  have rej: "\<not> time_accepted example_builtins (resolve_time 10 (PInt (- 3)))"
    using readInstructions_diagnostics [of example_builtins 500 500 10 "[]" "[]"
        "kf (PInt 0) []" "[]" "PInt 0" "- 3" True 0 "[]" None "[]" "(PInt 0, None, None)"] neg
    by blast
  have w2: "readInstructions example_builtins 500 500 10
        (Some \<lparr>keyframes = Some (two_keyframes @ kf (PInt (- 3)) [] # [])\<rparr>)
       = Inl (Exit ''invalid time'')"
    using readInstructions_diagnostics [of example_builtins 500 500 10 two_keyframes
        "[(PInt 0, Some 100, Some 100), (PFloat 10, Some 200, Some 50)]"
        "kf (PInt (- 3)) []" "[]" "PInt (- 3)"]
      two_keyframes_read rej by (simp add: kf_def)
  have acc: "time_accepted example_builtins (resolve_time 10 (PInt 20))" by code_simp
  have bad: "resolve_size example_builtins 500 500 [(''scale'', PStr ''big'')] = None" by code_simp
  have w3: "readInstructions example_builtins 500 500 10
        (Some \<lparr>keyframes = Some (two_keyframes @ kf (PInt 20) [(''scale'', PStr ''big'')] # [])\<rparr>)
       = Inl (Exit ''Invalid size for keyframe'')"
    using readInstructions_diagnostics [of example_builtins 500 500 10 two_keyframes
        "[(PInt 0, Some 100, Some 100), (PFloat 10, Some 200, Some 50)]"
        "kf (PInt 20) [(''scale'', PStr ''big'')]" "[]" "PInt 20" 0 True 0 "[(''scale'', PStr ''big'')]"]
      two_keyframes_read acc bad by (simp add: kf_def)
  let ?e = "(PInt 0, Some 100, None) :: entry"
  from readInstructions_diagnostics [of example_builtins 500 500 10 "[]" "[]"
        "kf (PInt 0) []" "[]" "PInt 0" 0 True 0 "[]"
        "Some \<lparr>keyframes = Some [kf (PInt 0) [(''width'', PInt 100)]]\<rparr>"
        "[(PInt 0, Some 100, None)]" ?e]
  have imp: "readInstructions example_builtins 500 500 10
        (Some \<lparr>keyframes = Some [kf (PInt 0) [(''width'', PInt 100)]]\<rparr>) = Inr [(PInt 0, Some 100, None)]
      \<and> ?e \<in> set [(PInt 0, Some 100, None)] \<longrightarrow>
        (\<exists>kfs k' sz'. Some \<lparr>keyframes = Some [kf (PInt 0) [(''width'', PInt 100)]]\<rparr>
              = Some \<lparr>keyframes = Some kfs\<rparr> \<and> k' \<in> set kfs
           \<and> kf_size k' = Some sz' \<and> resolve_size example_builtins 500 500 sz' = Some (snd ?e)
           \<and> (fst (snd ?e) \<noteq> None \<longleftrightarrow>
                 map_of sz' ''scale'' \<noteq> None \<or> map_of sz' ''wScale'' \<noteq> None
                 \<or> map_of sz' ''width'' \<noteq> None)
           \<and> (snd (snd ?e) \<noteq> None \<longleftrightarrow>
                 map_of sz' ''scale'' \<noteq> None \<or> map_of sz' ''hScale'' \<noteq> None
                 \<or> map_of sz' ''height'' \<noteq> None))"
    by (elim conjE)
  have mem: "?e \<in> set [(PInt 0, Some 100, None)]" by simp
  from imp width_only_read mem obtain sz' where
    r: "resolve_size example_builtins 500 500 sz' = Some (snd ?e)"
    and hh: "snd (snd ?e) \<noteq> None \<longleftrightarrow>
                 map_of sz' ''scale'' \<noteq> None \<or> map_of sz' ''hScale'' \<noteq> None
                 \<or> map_of sz' ''height'' \<noteq> None"
    by blast
  have w4: "\<exists>sz'. resolve_size example_builtins 500 500 sz' = Some (Some 100, None)
          \<and> map_of sz' ''height'' = None"
    using r hh by (intro exI [of _ sz']) simp
  show ?thesis using two_keyframes_read w1 w2 w3 w4 width_only_read by (intro conjI)
qed

text \<open>The claim as stated fails for a size that gives only a width: the table is built and
  the stored keyframe has no height.\<close>

theorem readInstructions_width_only_counterexample:
  "readInstructions example_builtins 500 500 10
     (Some \<lparr>keyframes = Some [kf (PInt 0) [(''width'', PInt 100)]]\<rparr>)
   = Inr [(PInt 0, Some 100, None)]"
  by (rule width_only_read)

section \<open>Properties of the command line\<close>

lemma endswith_last: "endswith s suf \<Longrightarrow> suf \<noteq> [] \<Longrightarrow> last s = last suf"
proof -
  assume e: "endswith s suf" and ne: "suf \<noteq> []"
  then have "drop (length s - length suf) s = suf" by (simp add: endswith_def)
  then have "last (drop (length s - length suf) s) = last suf" by simp
  moreover have "length s - length suf < length s"
    using e ne by (cases suf) (auto simp: endswith_def)
  ultimately show ?thesis by (simp add: last_drop)
qed

lemma last_py_ascii: "last (py_ascii s) = ascii_quote s"
  by (simp add: py_ascii_def)

lemma ascii_quote_cases: "ascii_quote s = CHR 0x27 \<or> ascii_quote s = CHR 0x22"
  by (simp add: ascii_quote_def)

lemma py_ascii_no_ext: "\<not> re_search_ext (py_ascii s)"
proof
  assume "re_search_ext (py_ascii s)"
  then consider "endswith (py_ascii s) ''.mp4''" | "endswith (py_ascii s) ''.webm''"
    | "endswith (py_ascii s) ''.mp4\<newline>''" | "endswith (py_ascii s) ''.webm\<newline>''"
    by (auto simp: re_search_ext_def)
  then have "ascii_quote s \<in> {CHR ''4'', CHR ''m'', CHR 0x0A}"
  proof cases
    case 1 from endswith_last [OF 1] show ?thesis by (simp add: last_py_ascii)
  next
    case 2 from endswith_last [OF 2] show ?thesis by (simp add: last_py_ascii)
  next
    case 3 from endswith_last [OF 3] show ?thesis by (simp add: last_py_ascii)
  next
    case 4 from endswith_last [OF 4] show ?thesis by (simp add: last_py_ascii)
  qed
  then show False using ascii_quote_cases [of s] by auto
qed

lemma py_ascii_given: "given (Some (py_ascii s))"
  by (simp add: given_def py_ascii_def)

text \<open>
  Claim C9. In real-video mode (an input path, no transparent arguments) the path is replaced
  by its \<open>ascii\<close> form, which ends with a quote character; it never matches the pattern
  for \<open>.mp4\<close> or \<open>.webm\<close> at the end, and \<open>main\<close> exits with \<open>No valid input file.\<close>
  with nothing done: no staging directory, no external command.
\<close>

theorem real_video_mode_never_valid:
  "\<not> re_search_ext (py_ascii path)
   \<and> main ev \<lparr>input = Some path, slow = slw, transparent = None\<rparr> w
       = (Inl (Exit ''No valid input file.''), w)"
  using py_ascii_no_ext [of path] py_ascii_given [of path]
  by (simp add: main_def given_def)

lemma example_video_rejected:
  "py_ascii ''video.mp4'' = [CHR 0x27] @ ''video.mp4'' @ [CHR 0x27]"
  by code_simp

section \<open>Properties of the run\<close>

lemma keeps_bind: "keeps_temp m \<Longrightarrow> (\<And>a. keeps_temp (f a)) \<Longrightarrow> keeps_temp (bind_run m f)"
  unfolding keeps_temp_def bind_run_def
proof
  fix w
  assume m: "\<forall>w. temp_dir (snd (m w)) = temp_dir w" and f: "\<And>a. \<forall>w. temp_dir (snd (f a w)) = temp_dir w"
  obtain r w' where mw: "m w = (r, w')" by (cases "m w")
  have t: "temp_dir w' = temp_dir w" using m mw by (metis snd_conv)
  show "temp_dir (snd (case m w of (Inl e, w') \<Rightarrow> (Inl e, w') | (Inr a, w') \<Rightarrow> f a w')) = temp_dir w"
    using t f by (cases r) (simp_all add: mw)
qed

lemma keeps_at_stage: "keeps_temp (at_stage ev s)"
  by (simp add: keeps_temp_def at_stage_def)

lemma keeps_pure: "(\<And>w. temp_dir (f w) = temp_dir w) \<Longrightarrow> keeps_temp (\<lambda>w. (x w, f w))"
  by (simp add: keeps_temp_def)

lemma temp_run_ffmpeg: "temp_dir (run_ffmpeg c w) = temp_dir w"
  by (simp add: run_ffmpeg_def)

lemma temp_append_concat: "temp_dir (append_concat l w) = temp_dir w"
  by (simp add: append_concat_def)

lemma temp_encode: "temp_dir (encode ev slw fps count write w) = temp_dir w"
  by (simp add: encode_def temp_run_ffmpeg temp_append_concat split: prod.splits)

lemma temp_concatWebms: "temp_dir (concatWebms w) = temp_dir w"
  by (simp add: concatWebms_def temp_run_ffmpeg)

lemma temp_extractAudio: "temp_dir (extractAudio v w) = temp_dir w"
  by (simp add: extractAudio_def temp_run_ffmpeg)

lemma temp_moveToOutput: "temp_dir (moveToOutput v w) = temp_dir w"
  by (simp add: moveToOutput_def)

lemma temp_prepare: "temp_dir (prepare w)"
  by (simp add: prepare_def Let_def)

lemma temp_cleanup: "\<not> temp_dir (cleanup b w)"
  by (simp add: cleanup_def Let_def)

lemma transparent_body_split:
  "transparent_body ev slw duration fps width height frames =
     bind_run (at_stage ev Prepare) (\<lambda>_.
     bind_run (\<lambda>w. (Inr (), prepare w)) (\<lambda>_.
       transparent_rest ev slw duration fps width height frames))"
  by (simp add: transparent_body_def transparent_rest_def)

lemma keeps_images:
  "keeps_temp (\<lambda>w. case makeTransparentImages info frames f d of (ret, st, ls) \<Rightarrow> (ret, append_concat ls w))"
  by (simp add: keeps_temp_def temp_append_concat split: prod.splits)

lemma keeps_transparent_rest: "keeps_temp (transparent_rest ev slw duration fps width height frames)"
  unfolding transparent_rest_def
  by (intro keeps_bind keeps_at_stage keeps_pure keeps_images
        temp_encode temp_concatWebms temp_moveToOutput refl)

lemma video_body_split:
  "video_body ev inputFilePath slw time width height fps =
     bind_run (at_stage ev Prepare) (\<lambda>_.
     bind_run (\<lambda>w. (Inr (), prepare w)) (\<lambda>_.
       video_rest ev inputFilePath slw time width height fps))"
  by (simp add: video_body_def video_rest_def)

lemma keeps_video_rest: "keeps_temp (video_rest ev inputFilePath slw time width height fps)"
  unfolding video_rest_def
  by (intro keeps_bind keeps_at_stage keeps_pure
        temp_encode temp_concatWebms temp_extractAudio temp_run_ffmpeg refl)

lemma guarded_outcome:
  assumes keeps: "keeps_temp rest"
  shows "(interrupt ev = Some Prepare \<longrightarrow>
            with_safeExit \<lparr>onExit = None\<rparr>
              (bind_run (at_stage ev Prepare) (\<lambda>_. bind_run (\<lambda>w. (Inr (), prepare w)) (\<lambda>_. rest))) w
            = (Inr (), w))
       \<and> (interrupt ev \<noteq> Some Prepare \<longrightarrow>
            (\<exists>r w'. rest (prepare w) = (r, w') \<and> temp_dir w'
               \<and> with_safeExit \<lparr>onExit = None\<rparr>
                    (bind_run (at_stage ev Prepare) (\<lambda>_. bind_run (\<lambda>w. (Inr (), prepare w)) (\<lambda>_. rest))) w
                  = (if r = Inl KeyboardInterrupt then Inr () else r, w')))"
proof (intro conjI impI)
  assume "interrupt ev = Some Prepare"
  then show "with_safeExit \<lparr>onExit = None\<rparr>
              (bind_run (at_stage ev Prepare) (\<lambda>_. bind_run (\<lambda>w. (Inr (), prepare w)) (\<lambda>_. rest))) w
            = (Inr (), w)"
    by (simp add: with_safeExit_def bind_run_def at_stage_def safeExit_exit_def)
next
  assume ni: "interrupt ev \<noteq> Some Prepare"
  obtain r w' where rw: "rest (prepare w) = (r, w')" by (cases "rest (prepare w)")
  have "temp_dir w' = temp_dir (prepare w)"
    using keeps rw unfolding keeps_temp_def by (metis snd_conv)
  then have t: "temp_dir w'" by (simp add: temp_prepare)
  have body: "bind_run (at_stage ev Prepare) (\<lambda>_. bind_run (\<lambda>w. (Inr (), prepare w)) (\<lambda>_. rest)) w = (r, w')"
    using ni rw by (simp add: bind_run_def at_stage_def)
  have "with_safeExit \<lparr>onExit = None\<rparr>
          (bind_run (at_stage ev Prepare) (\<lambda>_. bind_run (\<lambda>w. (Inr (), prepare w)) (\<lambda>_. rest))) w
        = (if r = Inl KeyboardInterrupt then Inr () else r, w')"
    unfolding with_safeExit_def body
    by (cases r) (simp_all add: safeExit_exit_def)
  then show "\<exists>r w'. rest (prepare w) = (r, w') \<and> temp_dir w'
               \<and> with_safeExit \<lparr>onExit = None\<rparr>
                    (bind_run (at_stage ev Prepare) (\<lambda>_. bind_run (\<lambda>w. (Inr (), prepare w)) (\<lambda>_. rest))) w
                  = (if r = Inl KeyboardInterrupt then Inr () else r, w')"
    using rw t by blast
qed

lemma guarded_then_cleanup:
  assumes keeps: "keeps_temp rest"
    and run: "bind_run (with_safeExit \<lparr>onExit = None\<rparr>
              (bind_run (at_stage ev Prepare) (\<lambda>_. bind_run (\<lambda>w. (Inr (), prepare w)) (\<lambda>_. rest))))
            (\<lambda>_ w. (Inr (), (cleanup False w)\<lparr>printed := printed (cleanup False w) @ [''Done!'']\<rparr>)) w
          = (r, w')"
  shows "(r = Inr () \<longrightarrow> \<not> temp_dir w')
       \<and> (\<forall>e. r = Inl e \<longrightarrow> e \<noteq> KeyboardInterrupt \<and> temp_dir w')"
proof (cases "interrupt ev = Some Prepare")
  case True
  from guarded_outcome [OF keeps, of ev w] True
  have "with_safeExit \<lparr>onExit = None\<rparr>
              (bind_run (at_stage ev Prepare) (\<lambda>_. bind_run (\<lambda>w. (Inr (), prepare w)) (\<lambda>_. rest))) w
            = (Inr (), w)" by blast
  then show ?thesis using run by (auto simp: bind_run_def temp_cleanup)
next
  case False
  from guarded_outcome [OF keeps, of ev w] False
  obtain r0 w0 where t: "temp_dir w0"
    and g: "with_safeExit \<lparr>onExit = None\<rparr>
              (bind_run (at_stage ev Prepare) (\<lambda>_. bind_run (\<lambda>w. (Inr (), prepare w)) (\<lambda>_. rest))) w
            = (if r0 = Inl KeyboardInterrupt then Inr () else r0, w0)"
    by blast
  show ?thesis
  proof (cases r0)
    case (Inl e0)
    then show ?thesis using run g t
      by (cases "e0 = KeyboardInterrupt") (auto simp: bind_run_def temp_cleanup)
  next
    case (Inr u)
    then show ?thesis using run g t by (auto simp: bind_run_def temp_cleanup)
  qed
qed

lemma read_single:
  assumes "readInstructions py w h d (Some \<lparr>keyframes = Some [k]\<rparr>) = Inr info"
  shows "length info = 1"
  using assms
  by (auto simp: readInstructions_def Let_def split: option.splits if_splits)

lemma read_single_errors:
  assumes "kf_size k \<noteq> None"
  shows "(\<exists>info. readInstructions py w h d (Some \<lparr>keyframes = Some [k]\<rparr>) = Inr info \<and> length info = 1)
       \<or> readInstructions py w h d (Some \<lparr>keyframes = Some [k]\<rparr>)
            \<in> {Inl (Exit ''No time for keyframe''), Inl (Exit ''invalid time''),
               Inl (Exit ''Invalid size for keyframe'')}"
  using assms
  by (auto simp: readInstructions_def Let_def split: option.splits if_splits)

lemma frameCount_pos: "0 < frameCount d f l \<Longrightarrow> d \<noteq> 0 \<and> f \<noteq> 0"
  by (auto simp: frameCount_def)

lemma transparent_single:
  assumes short: "length info < 2" and pos: "0 < frames" and nz: "fps \<noteq> 0" "d \<noteq> 0"
  shows "makeTransparentImages info frames fps d = (Inl (Exit ''Could not interpolate''), dedup_init, [])"
proof -
  obtain n where n: "nat frames = Suc n" using pos by (cases "nat frames") auto
  have "[0..<nat frames] = 0 # [1..<Suc n]" unfolding n by (simp add: upt_conv_Cons del: upt_Suc)
  then show ?thesis
    using nz getInterpolatedSize_short [OF short]
    by (simp add: makeTransparentImages_def frame_time_def del: upt_Suc)
qed

lemma scale_single:
  assumes short: "length info < 2" and ne: "arange time (1 / of_int fps) \<noteq> []" and nz: "fps \<noteq> 0"
  shows "scaleImages fe info fps time \<in>
           {Inl (Exit ''Could not interpolate''), Inl (Exit ''Try to read non-existent frame image'')}"
proof -
  obtain t ts where a: "arange time (1 / of_int fps) = t # ts" using ne by (cases "arange time (1 / of_int fps)") auto
  show ?thesis
    using nz getInterpolatedSize_short [OF short]
    by (simp add: scaleImages_def a)
qed

lemma transparent_run_single:
  assumes inst: "instruction_file ev = Some \<lparr>keyframes = Some [k]\<rparr>" and sz: "kf_size k \<noteq> None"
    and ni: "interrupt ev = None" and pos: "0 < frameCount d (py_num fps) (py_num loop)"
  shows "makeTransparentVideo ev slw d fps wd ht loop w
          \<in> {(Inl (Exit ''No time for keyframe''), prepare w), (Inl (Exit ''invalid time''), prepare w),
             (Inl (Exit ''Invalid size for keyframe''), prepare w),
             (Inl (Exit ''Could not interpolate''), prepare w)}"
proof -
  from frameCount_pos [OF pos] have nz: "py_num fps \<noteq> 0" "d \<noteq> 0" by auto
  from read_single_errors [OF sz, of "builtins_of ev" "py_num wd" "py_num ht" d]
  show ?thesis
  proof
    assume "\<exists>info. readInstructions (builtins_of ev) (py_num wd) (py_num ht) d
              (Some \<lparr>keyframes = Some [k]\<rparr>) = Inr info \<and> length info = 1"
    then obtain info where r: "readInstructions (builtins_of ev) (py_num wd) (py_num ht) d
              (Some \<lparr>keyframes = Some [k]\<rparr>) = Inr info" and l: "length info < 2" by auto
    show ?thesis
      using r inst ni transparent_single [OF l pos nz]
      by (simp add: makeTransparentVideo_def transparent_body_def bind_run_def at_stage_def
          with_safeExit_def safeExit_exit_def append_concat_def)
  next
    assume "readInstructions (builtins_of ev) (py_num wd) (py_num ht) d (Some \<lparr>keyframes = Some [k]\<rparr>)
            \<in> {Inl (Exit ''No time for keyframe''), Inl (Exit ''invalid time''),
               Inl (Exit ''Invalid size for keyframe'')}"
    then show ?thesis
      using inst ni
      by (auto simp: makeTransparentVideo_def transparent_body_def bind_run_def at_stage_def
          with_safeExit_def safeExit_exit_def)
  qed
qed

lemma video_run_single:
  assumes inst: "instruction_file ev = Some \<lparr>keyframes = Some [k]\<rparr>" and sz: "kf_size k \<noteq> None"
    and ni: "interrupt ev = None" and pr: "probe ev path = Inr (time, wd, ht, fps)"
    and nz: "fps \<noteq> 0" and ne: "arange time (1 / of_int fps) \<noteq> []"
  shows "processVideo ev path slw w
          \<in> {(Inl (Exit ''No time for keyframe''), prepare w), (Inl (Exit ''invalid time''), prepare w),
             (Inl (Exit ''Invalid size for keyframe''), prepare w),
             (Inl (Exit ''Could not interpolate''), prepare w),
             (Inl (Exit ''Try to read non-existent frame image''), prepare w)}"
proof -
  from read_single_errors [OF sz, of "builtins_of ev" "of_int wd" "of_int ht" time]
  show ?thesis
  proof
    assume "\<exists>info. readInstructions (builtins_of ev) (of_int wd) (of_int ht) time
              (Some \<lparr>keyframes = Some [k]\<rparr>) = Inr info \<and> length info = 1"
    then obtain info where r: "readInstructions (builtins_of ev) (of_int wd) (of_int ht) time
              (Some \<lparr>keyframes = Some [k]\<rparr>) = Inr info" and l: "length info < 2" by auto
    from scale_single [OF l ne nz, of "frame_on_disk ev"]
    show ?thesis
      using r inst ni pr
      by (auto simp: processVideo_def video_body_def bind_run_def at_stage_def
          with_safeExit_def safeExit_exit_def)
  next
    assume "readInstructions (builtins_of ev) (of_int wd) (of_int ht) time (Some \<lparr>keyframes = Some [k]\<rparr>)
            \<in> {Inl (Exit ''No time for keyframe''), Inl (Exit ''invalid time''),
               Inl (Exit ''Invalid size for keyframe'')}"
    then show ?thesis
      using inst ni pr
      by (auto simp: processVideo_def video_body_def bind_run_def at_stage_def
          with_safeExit_def safeExit_exit_def)
  qed
qed

lemma bind_run_return: "bind_run (Pair (Inr a)) f w = f a w"
  by (simp add: bind_run_def)

text \<open>
  Claim C6, as amended. When a run ends normally, the staging directory has been removed; a
  keyboard interrupt raised inside the guarded block is swallowed by \<open>safeExit\<close>, the run
  goes on to \<open>cleanup\<close> and ends normally, so no run ends with \<open>KeyboardInterrupt\<close> from
  inside the block. Every other error raised inside the block (a \<open>sys.exit\<close> or an
  exception) ends the run with the staging directory still in place. In real-video mode a
  failure of the probe, before the block, leaves everything as it was.
\<close>

theorem staging_removed_unless_fatal:
  "(makeTransparentVideo ev slw d fps wd ht loop w = (r, w') \<longrightarrow>
      (r = Inr () \<longrightarrow> \<not> temp_dir w')
      \<and> (\<forall>e. r = Inl e \<longrightarrow> e \<noteq> KeyboardInterrupt \<and> temp_dir w'))
   \<and> (processVideo ev path slw w = (r2, w2) \<longrightarrow>
      (r2 = Inr () \<longrightarrow> \<not> temp_dir w2)
      \<and> (\<forall>e. r2 = Inl e \<longrightarrow>
            (probe ev path = Inl e \<and> w2 = w) \<or> (e \<noteq> KeyboardInterrupt \<and> temp_dir w2)))"
proof -
  have t: "makeTransparentVideo ev slw d fps wd ht loop w = (r, w') \<longrightarrow>
      (r = Inr () \<longrightarrow> \<not> temp_dir w')
      \<and> (\<forall>e. r = Inl e \<longrightarrow> e \<noteq> KeyboardInterrupt \<and> temp_dir w')"
  proof
    assume run: "makeTransparentVideo ev slw d fps wd ht loop w = (r, w')"
    show "(r = Inr () \<longrightarrow> \<not> temp_dir w')
      \<and> (\<forall>e. r = Inl e \<longrightarrow> e \<noteq> KeyboardInterrupt \<and> temp_dir w')"
      by (rule guarded_then_cleanup [OF keeps_transparent_rest])
         (use run in \<open>simp add: makeTransparentVideo_def transparent_body_split Let_def\<close>)
  qed
  have v: "processVideo ev path slw w = (r2, w2) \<longrightarrow>
      (r2 = Inr () \<longrightarrow> \<not> temp_dir w2)
      \<and> (\<forall>e. r2 = Inl e \<longrightarrow>
            (probe ev path = Inl e \<and> w2 = w) \<or> (e \<noteq> KeyboardInterrupt \<and> temp_dir w2))"
  proof
    assume run: "processVideo ev path slw w = (r2, w2)"
    show "(r2 = Inr () \<longrightarrow> \<not> temp_dir w2)
      \<and> (\<forall>e. r2 = Inl e \<longrightarrow>
            (probe ev path = Inl e \<and> w2 = w) \<or> (e \<noteq> KeyboardInterrupt \<and> temp_dir w2))"
    proof (cases "probe ev path")
      case (Inl e)
      then show ?thesis using run by (auto simp: processVideo_def bind_run_def)
    next
      case (Inr p)
      obtain time vw vh vfps where p: "p = (time, vw, vh, vfps)" by (cases p)
      have run': "bind_run (with_safeExit \<lparr>onExit = None\<rparr>
              (bind_run (at_stage ev Prepare) (\<lambda>_. bind_run (\<lambda>w. (Inr (), prepare w))
                 (\<lambda>_. video_rest ev path slw time vw vh vfps))))
            (\<lambda>_ w. (Inr (), (cleanup False w)\<lparr>printed := printed (cleanup False w) @ [''Done!'']\<rparr>)) w
          = (r2, w2)"
        using run Inr p by (simp add: processVideo_def video_body_split bind_run_return)
      have "(r2 = Inr () \<longrightarrow> \<not> temp_dir w2)
         \<and> (\<forall>e. r2 = Inl e \<longrightarrow> e \<noteq> KeyboardInterrupt \<and> temp_dir w2)"
        by (rule guarded_then_cleanup [OF keeps_video_rest run'])
      then show ?thesis by blast
    qed
  qed
  show ?thesis using t v by (rule conjI)
qed

lemma run_completes:
  "fst (makeTransparentVideo example_env False 2 (PFloat 2) (PInt 500) (PInt 500) (PInt 1) world0) = Inr ()"
  by code_simp

lemma run_interrupted:
  "fst (makeTransparentVideo (example_env\<lparr>interrupt := Some Encode\<rparr>) False 2 (PFloat 2)
          (PInt 500) (PInt 500) (PInt 1) world0) = Inr ()"
  by code_simp

lemma run_without_instructions:
  "makeTransparentVideo (example_env\<lparr>instruction_file := None\<rparr>) False 2 (PFloat 2)
          (PInt 500) (PInt 500) (PInt 1) world0
   = (Inl (Exit ''No instruction!''), world0\<lparr>temp_dir := True\<rparr>)"
  by code_simp

theorem staging_removed_unless_fatal_witness:
  "fst (makeTransparentVideo example_env False 2 (PFloat 2) (PInt 500) (PInt 500) (PInt 1) world0) = Inr ()
   \<and> \<not> temp_dir (snd (makeTransparentVideo example_env False 2 (PFloat 2) (PInt 500) (PInt 500) (PInt 1) world0))
   \<and> fst (makeTransparentVideo (example_env\<lparr>interrupt := Some Encode\<rparr>) False 2 (PFloat 2)
          (PInt 500) (PInt 500) (PInt 1) world0) = Inr ()
   \<and> \<not> temp_dir (snd (makeTransparentVideo (example_env\<lparr>interrupt := Some Encode\<rparr>) False 2 (PFloat 2)
          (PInt 500) (PInt 500) (PInt 1) world0))
   \<and> makeTransparentVideo (example_env\<lparr>instruction_file := None\<rparr>) False 2 (PFloat 2)
          (PInt 500) (PInt 500) (PInt 1) world0
      = (Inl (Exit ''No instruction!''), world0\<lparr>temp_dir := True\<rparr>)
   \<and> Exit ''No instruction!'' \<noteq> KeyboardInterrupt \<and> temp_dir (world0\<lparr>temp_dir := True\<rparr>)"
proof -
  let ?a = "makeTransparentVideo example_env False 2 (PFloat 2) (PInt 500) (PInt 500) (PInt 1) world0"
  let ?b = "makeTransparentVideo (example_env\<lparr>interrupt := Some Encode\<rparr>) False 2 (PFloat 2)
          (PInt 500) (PInt 500) (PInt 1) world0"
  have ea: "?a = (Inr (), snd ?a)" using run_completes by (metis prod.collapse)
  have eb: "?b = (Inr (), snd ?b)" using run_interrupted by (metis prod.collapse)
  have a: "\<not> temp_dir (snd ?a)"
    using staging_removed_unless_fatal [of example_env False 2 "PFloat 2" "PInt 500" "PInt 500" "PInt 1"
        world0 "Inr ()" "snd ?a" "''x''" "Inr ()" world0] ea
    by blast
  have b: "\<not> temp_dir (snd ?b)"
    using staging_removed_unless_fatal [of "example_env\<lparr>interrupt := Some Encode\<rparr>" False 2 "PFloat 2"
        "PInt 500" "PInt 500" "PInt 1" world0 "Inr ()" "snd ?b" "''x''" "Inr ()" world0] eb
    by blast
  have c: "Exit ''No instruction!'' \<noteq> KeyboardInterrupt \<and> temp_dir (world0\<lparr>temp_dir := True\<rparr>)"
    using staging_removed_unless_fatal [of "example_env\<lparr>instruction_file := None\<rparr>" False 2 "PFloat 2"
        "PInt 500" "PInt 500" "PInt 1" world0 "Inl (Exit ''No instruction!'')"
        "world0\<lparr>temp_dir := True\<rparr>" "''x''" "Inr ()" world0] run_without_instructions
    by blast
  show ?thesis using a b c run_completes run_interrupted run_without_instructions by blast
qed

text \<open>The claim as stated fails on a fatal error exit: with no instruction file the run
  exits with \<open>No instruction!\<close> and the staging directory that \<open>prepare\<close> made is left.\<close>

theorem staging_left_on_exit_counterexample:
  "main (example_env\<lparr>instruction_file := None\<rparr>)
      \<lparr>input = None, slow = False, transparent = Some [2, 2]\<rparr> world0
   = (Inl (Exit ''No instruction!''), world0\<lparr>temp_dir := True\<rparr>)
   \<and> temp_dir (world0\<lparr>temp_dir := True\<rparr>)"
  by code_simp

text \<open>
  Claim C8, as amended. For every instruction set with exactly one keyframe, the table that
  \<open>readInstructions\<close> builds has one entry, and every query on it exits with
  \<open>Could not interpolate\<close>. So every uninterrupted run on such a set (the keyframe having a
  size) that plans at least one frame ends in an error exit with a message, at parse time or
  at the first query, with the staging directory prepared and nothing planned, encoded or
  written to the concatenation list. A run that plans no frame makes no query.
\<close>

theorem single_keyframe_fails_at_first_query:
  "(readInstructions py w h d (Some \<lparr>keyframes = Some [k]\<rparr>) = Inr info \<longrightarrow>
       length info = 1 \<and> getInterpolatedSize info t = Inl (Exit ''Could not interpolate''))
   \<and> (instruction_file ev = Some \<lparr>keyframes = Some [k]\<rparr> \<and> kf_size k \<noteq> None
       \<and> interrupt ev = None \<and> 0 < frameCount dur (py_num fps) (py_num loop) \<longrightarrow>
       makeTransparentVideo ev slw dur fps wd ht loop w0
         \<in> {(Inl (Exit ''No time for keyframe''), prepare w0),
            (Inl (Exit ''invalid time''), prepare w0),
            (Inl (Exit ''Invalid size for keyframe''), prepare w0),
            (Inl (Exit ''Could not interpolate''), prepare w0)})
   \<and> (instruction_file ev = Some \<lparr>keyframes = Some [k]\<rparr> \<and> kf_size k \<noteq> None
       \<and> interrupt ev = None \<and> probe ev path = Inr (time, vw, vh, vfps)
       \<and> vfps \<noteq> 0 \<and> arange time (1 / of_int vfps) \<noteq> [] \<longrightarrow>
       processVideo ev path slw w0
         \<in> {(Inl (Exit ''No time for keyframe''), prepare w0),
            (Inl (Exit ''invalid time''), prepare w0),
            (Inl (Exit ''Invalid size for keyframe''), prepare w0),
            (Inl (Exit ''Could not interpolate''), prepare w0),
            (Inl (Exit ''Try to read non-existent frame image''), prepare w0)})"
proof -
  have a: "readInstructions py w h d (Some \<lparr>keyframes = Some [k]\<rparr>) = Inr info \<longrightarrow>
       length info = 1 \<and> getInterpolatedSize info t = Inl (Exit ''Could not interpolate'')"
  proof
    assume "readInstructions py w h d (Some \<lparr>keyframes = Some [k]\<rparr>) = Inr info"
    then have l: "length info = 1" by (rule read_single)
    then have "length info < 2" by simp
    then show "length info = 1 \<and> getInterpolatedSize info t = Inl (Exit ''Could not interpolate'')"
      using l getInterpolatedSize_short by blast
  qed
  have b: "instruction_file ev = Some \<lparr>keyframes = Some [k]\<rparr> \<and> kf_size k \<noteq> None
       \<and> interrupt ev = None \<and> 0 < frameCount dur (py_num fps) (py_num loop) \<longrightarrow>
       makeTransparentVideo ev slw dur fps wd ht loop w0
         \<in> {(Inl (Exit ''No time for keyframe''), prepare w0),
            (Inl (Exit ''invalid time''), prepare w0),
            (Inl (Exit ''Invalid size for keyframe''), prepare w0),
            (Inl (Exit ''Could not interpolate''), prepare w0)}"
    using transparent_run_single by blast
  have c: "instruction_file ev = Some \<lparr>keyframes = Some [k]\<rparr> \<and> kf_size k \<noteq> None
       \<and> interrupt ev = None \<and> probe ev path = Inr (time, vw, vh, vfps)
       \<and> vfps \<noteq> 0 \<and> arange time (1 / of_int vfps) \<noteq> [] \<longrightarrow>
       processVideo ev path slw w0
         \<in> {(Inl (Exit ''No time for keyframe''), prepare w0),
            (Inl (Exit ''invalid time''), prepare w0),
            (Inl (Exit ''Invalid size for keyframe''), prepare w0),
            (Inl (Exit ''Could not interpolate''), prepare w0),
            (Inl (Exit ''Try to read non-existent frame image''), prepare w0)}"
    using video_run_single by blast
  show ?thesis using a b c by (intro conjI)
qed

lemma single_read:
  "readInstructions example_builtins 500 500 2 (Some \<lparr>keyframes = Some single_keyframe\<rparr>)
   = Inr [(PInt 0, Some 100, Some 100)]"
  by code_simp

lemma single_run:
  "makeTransparentVideo single_env False 2 (PFloat 2) (PInt 500) (PInt 500) (PInt 1) world0
   = (Inl (Exit ''Could not interpolate''), world0\<lparr>temp_dir := True\<rparr>)"
  by code_simp

lemma single_video_run:
  "processVideo single_env ''video.mp4'' False world0
   = (Inl (Exit ''Could not interpolate''), world0\<lparr>temp_dir := True\<rparr>)"
  by code_simp

lemma single_env_facts:
  "instruction_file single_env = Some \<lparr>keyframes = Some [kf (PInt 0) [(''width'', PInt 100), (''height'', PInt 100)]]\<rparr>"
  "kf_size (kf (PInt 0) [(''width'', PInt 100), (''height'', PInt 100)]) \<noteq> None"
  "interrupt single_env = None"
  "probe single_env ''video.mp4'' = Inr (10, 640, 480, 1)"
  by (simp_all add: single_env_def example_env_def single_keyframe_def kf_def)

lemma example_counts:
  "0 < frameCount 2 (py_num (PFloat 2)) (py_num (PInt 1))"
  "arange 10 (1 / of_int 1) \<noteq> []"
  by (simp_all add: frameCount_def py_num_def arange_def)

theorem single_keyframe_fails_at_first_query_witness:
  "readInstructions example_builtins 500 500 2 (Some \<lparr>keyframes = Some single_keyframe\<rparr>)
     = Inr [(PInt 0, Some 100, Some 100)]
   \<and> getInterpolatedSize [(PInt 0, Some 100, Some 100)] (1 / 2) = Inl (Exit ''Could not interpolate'')
   \<and> instruction_file single_env = Some \<lparr>keyframes = Some single_keyframe\<rparr>
   \<and> interrupt single_env = None
   \<and> 0 < frameCount 2 (py_num (PFloat 2)) (py_num (PInt 1))
   \<and> makeTransparentVideo single_env False 2 (PFloat 2) (PInt 500) (PInt 500) (PInt 1) world0
       \<in> {(Inl (Exit ''No time for keyframe''), prepare world0),
          (Inl (Exit ''invalid time''), prepare world0),
          (Inl (Exit ''Invalid size for keyframe''), prepare world0),
          (Inl (Exit ''Could not interpolate''), prepare world0)}
   \<and> probe single_env ''video.mp4'' = Inr (10, 640, 480, 1)
   \<and> processVideo single_env ''video.mp4'' False world0
       \<in> {(Inl (Exit ''No time for keyframe''), prepare world0),
          (Inl (Exit ''invalid time''), prepare world0),
          (Inl (Exit ''Invalid size for keyframe''), prepare world0),
          (Inl (Exit ''Could not interpolate''), prepare world0),
          (Inl (Exit ''Try to read non-existent frame image''), prepare world0)}"
proof -
  note t = single_keyframe_fails_at_first_query [of example_builtins 500 500 2
      "kf (PInt 0) [(''width'', PInt 100), (''height'', PInt 100)]"
      "[(PInt 0, Some 100, Some 100)]" "1 / 2" single_env 2 "PFloat 2" "PInt 1" False
      "PInt 500" "PInt 500" world0 "''video.mp4''" 10 640 480 1]
  have r: "readInstructions example_builtins 500 500 2
              (Some \<lparr>keyframes = Some [kf (PInt 0) [(''width'', PInt 100), (''height'', PInt 100)]]\<rparr>)
           = Inr [(PInt 0, Some 100, Some 100)]"
    using single_read by (simp add: single_keyframe_def)
  have q: "getInterpolatedSize [(PInt 0, Some 100, Some 100)] (1 / 2) = Inl (Exit ''Could not interpolate'')"
    using t r by blast
  have one: "(1 :: int) \<noteq> 0" by simp
  have m: "makeTransparentVideo single_env False 2 (PFloat 2) (PInt 500) (PInt 500) (PInt 1) world0
       \<in> {(Inl (Exit ''No time for keyframe''), prepare world0),
          (Inl (Exit ''invalid time''), prepare world0),
          (Inl (Exit ''Invalid size for keyframe''), prepare world0),
          (Inl (Exit ''Could not interpolate''), prepare world0)}"
    using t single_env_facts example_counts(1) by blast
  have v: "processVideo single_env ''video.mp4'' False world0
       \<in> {(Inl (Exit ''No time for keyframe''), prepare world0),
          (Inl (Exit ''invalid time''), prepare world0),
          (Inl (Exit ''Invalid size for keyframe''), prepare world0),
          (Inl (Exit ''Could not interpolate''), prepare world0),
          (Inl (Exit ''Try to read non-existent frame image''), prepare world0)}"
    using t single_env_facts example_counts(2) one by blast
  have i: "instruction_file single_env = Some \<lparr>keyframes = Some single_keyframe\<rparr>"
    by (simp add: single_env_def)
  show ?thesis
    using single_read q i single_env_facts(3,4) example_counts(1) m v by (intro conjI)
qed

text \<open>The claim as stated fails for a run that plans no frame: with one keyframe and
  duration 0 no query is made, and the run ends with an uncaught \<open>ValueError\<close>.\<close>

theorem single_keyframe_no_frame_counterexample:
  "instruction_file single_env = Some \<lparr>keyframes = Some single_keyframe\<rparr>
   \<and> length single_keyframe = 1
   \<and> fst (main single_env \<lparr>input = None, slow = False, transparent = Some [0]\<rparr> world0)
       = Inl ValueError"
  by code_simp

end
